theory Spec2Isabelle
  imports Complex_Main "HOL-Library.Sublist" "HOL-Library.Log_Nat"
begin

section \<open>FutureGen: the request-orchestration layer of services/geminiService.ts\<close>

text \<open>
  The embedding follows \<^verbatim>\<open>src/services/geminiService.ts\<close> and \<^verbatim>\<open>src/types.ts\<close>.
  JavaScript numbers are doubles. The selection of the aspect ratio is modelled with the
  rounding of each division and subtraction. Pixel sizes are naturals and delays are
  integers, computed exactly.
  The browser (image decoding, canvas, JPEG encoding), the credential and the remote
  service are parameters of the functions that use them.
\<close>

subsection \<open>types.ts\<close>

datatype AspectRatio = SQUARE | PORTRAIT | LANDSCAPE | WIDE_LANDSCAPE | WIDE_PORTRAIT | SAME_AS_SOURCE

text \<open>The string value of each enum member, which is what the program compares and sends.\<close>

fun aspect_value :: "AspectRatio \<Rightarrow> string" where
  "aspect_value SQUARE = ''1:1''"
| "aspect_value PORTRAIT = ''3:4''"
| "aspect_value LANDSCAPE = ''4:3''"
| "aspect_value WIDE_LANDSCAPE = ''16:9''"
| "aspect_value WIDE_PORTRAIT = ''9:16''"
| "aspect_value SAME_AS_SOURCE = ''SAME_AS_SOURCE''"

datatype ReferenceMode = POSE | DRESS | EXPRESSION | STYLE | BACKGROUND | COMPOSITION | CUSTOM

datatype ModelId = GEMINI_2_5 | GEMINI_3_PRO | IMAGEN_4

fun model_value :: "ModelId \<Rightarrow> string" where
  "model_value GEMINI_2_5 = ''gemini-2.5-flash-image''"
| "model_value GEMINI_3_PRO = ''gemini-3-pro-image-preview''"
| "model_value IMAGEN_4 = ''imagen-4.0-generate-001''"

record ImageData =
  data :: string
  mimeType :: string

text \<open>\<open>width\<close> and \<open>height\<close> are optional numbers; \<open>None\<close> is \<^verbatim>\<open>undefined\<close>.\<close>

record ImageAsset = ImageData +
  width :: "int option"
  height :: "int option"

record GenerationConfig =
  prompt :: string
  aspectRatio :: AspectRatio
  referenceMode :: "ReferenceMode option"
  customReferencePrompt :: "string option"
  modelId :: "ModelId option"

text \<open>JavaScript truthiness of an optional string and of an optional number.\<close>

fun truthy_str :: "string option \<Rightarrow> bool" where
  "truthy_str None = False"
| "truthy_str (Some s) = (s \<noteq> [])"

fun truthy_num :: "int option \<Rightarrow> bool" where
  "truthy_num None = False"
| "truthy_num (Some n) = (n \<noteq> 0)"

subsection \<open>Double arithmetic\<close>

text \<open>
  A finite double is modelled by the rational number it denotes, and an operation on
  doubles by the exact operation followed by \<open>double_of\<close>, the rounding to the nearest
  number with a 53 bit significand, ties to the even significand. The exponent is not
  bounded here: a result of magnitude \<open>2 ^ 1024\<close> or more stands for an infinity, and is
  tested for where the source can produce it.
\<close>

text \<open>The integer nearest to \<open>y\<close>, the even one of the two when \<open>y\<close> is half way.\<close>

definition round_even :: "rat \<Rightarrow> int" where
  "round_even y =
     (let f = \<lfloor>y\<rfloor>; d = y - of_int f
      in if d < 1 / 2 then f else if 1 / 2 < d then f + 1 else if even f then f else f + 1)"

text \<open>The binary exponent of a positive \<open>x\<close>: the \<open>e\<close> with \<open>2 powi e \<le> x < 2 powi (e + 1)\<close>.\<close>

definition exponent :: "rat \<Rightarrow> int" where
  "exponent x =
     (if 1 \<le> x then bitlen \<lfloor>x\<rfloor> - 1
      else (let j = bitlen \<lfloor>1 / x\<rfloor> - 1
            in if x = 1 / 2 ^ nat j then - j else - j - 1))"

definition double_of :: "rat \<Rightarrow> rat" where
  "double_of x =
     (if x = 0 then 0
      else (let q = 2 powi (exponent \<bar>x\<bar> - 52)
            in of_int (round_even (x / q)) * q))"

subsection \<open>getClosestSupportedRatio\<close>

text \<open>\<open>val\<close> is the decimal literal of the source; the double it denotes is \<open>double_of\<close> of it.\<close>

record ratio_entry =
  str :: string
  val :: rat

definition supported :: "ratio_entry list" where
  "supported =
    [\<lparr>str = ''1:1'', val = 1\<rparr>,
     \<lparr>str = ''3:4'', val = 75 / 100\<rparr>,
     \<lparr>str = ''4:3'', val = 133 / 100\<rparr>,
     \<lparr>str = ''9:16'', val = 5625 / 10000\<rparr>,
     \<lparr>str = ''16:9'', val = 177 / 100\<rparr>]"

text \<open>\<^verbatim>\<open>Math.abs(entry.val - ratio)\<close>, where \<open>ratio\<close> is a double: the subtraction rounds,
  the absolute value is exact.\<close>

definition distance :: "rat \<Rightarrow> ratio_entry \<Rightarrow> rat" where
  "distance ratio e = \<bar>double_of (double_of (val e) - ratio)\<bar>"

text \<open>The callback of \<^verbatim>\<open>reduce\<close>: the current entry replaces the previous one only when
  it is strictly closer to the ratio.\<close>

definition closer :: "rat \<Rightarrow> ratio_entry \<Rightarrow> ratio_entry \<Rightarrow> ratio_entry" where
  "closer ratio prev cur =
     (if distance ratio cur < distance ratio prev then cur else prev)"

text \<open>
  \<open>w\<close> and \<open>h\<close> are the values of two finite doubles. When \<open>h\<close> is zero, or the quotient
  overflows, \<^verbatim>\<open>ratio\<close> is an infinity or \<^verbatim>\<open>NaN\<close>, every distance is an infinity or \<^verbatim>\<open>NaN\<close>,
  no comparison of the callback holds and the first entry stays.
  \<^verbatim>\<open>reduce\<close> without an initial value starts from the first element and folds the
  rest from the left; it is applied to the non-empty literal \<open>supported\<close> only.
\<close>

definition getClosestSupportedRatio :: "rat \<Rightarrow> rat \<Rightarrow> string" where
  "getClosestSupportedRatio w h =
     (if h = 0 \<or> 2 ^ 1024 \<le> \<bar>double_of (w / h)\<bar> then str (hd supported)
      else (let ratio = double_of (w / h)
            in str (foldl (closer ratio) (hd supported) (tl supported))))"

text \<open>Entry \<open>i\<close> of a list is the first one at minimum distance from \<open>q\<close>.\<close>

definition first_min_at :: "rat \<Rightarrow> ratio_entry list \<Rightarrow> nat \<Rightarrow> bool" where
  "first_min_at q es i \<longleftrightarrow>
     i < length es \<and>
     (\<forall>j < length es. \<bar>val (es ! i) - q\<bar> \<le> \<bar>val (es ! j) - q\<bar>) \<and>
     (\<forall>j < i. \<bar>val (es ! i) - q\<bar> < \<bar>val (es ! j) - q\<bar>)"

subsection \<open>compressImage\<close>

definition MAX_SIZE :: nat where
  "MAX_SIZE = 1024"

text \<open>\<^verbatim>\<open>Math.round\<close> rounds to the nearest integer, halves upwards.\<close>

definition math_round :: "rat \<Rightarrow> int" where
  "math_round x = \<lfloor>x + 1 / 2\<rfloor>"

text \<open>Lines 27 to 40: the canvas size computed from the decoded image's size.\<close>

definition canvas_size :: "nat \<Rightarrow> nat \<Rightarrow> nat \<times> nat" where
  "canvas_size w h =
     (if w > MAX_SIZE \<or> h > MAX_SIZE then
        (if w > h then (MAX_SIZE, nat (math_round (of_nat (h * MAX_SIZE) / of_nat w)))
         else (nat (math_round (of_nat (w * MAX_SIZE) / of_nat h)), MAX_SIZE))
      else (w, h))"

text \<open>
  The browser, as far as \<^verbatim>\<open>compressImage\<close> uses it:
  \<open>decode d m\<close> is the pixel size of the image loaded from the data URL built from base64
  text \<open>d\<close> and mime type \<open>m\<close>, or \<open>None\<close> when \<^verbatim>\<open>onerror\<close> fires;
  \<open>context2d\<close> tells whether \<^verbatim>\<open>getContext('2d')\<close> gives a context;
  \<open>encodeJPEG d m w h\<close> is the part after the comma of
  \<^verbatim>\<open>toDataURL('image/jpeg', 0.95)\<close> for that image drawn on a \<open>w\<close> by \<open>h\<close> canvas.
\<close>

record browser =
  decode :: "string \<Rightarrow> string \<Rightarrow> (nat \<times> nat) option"
  context2d :: bool
  encodeJPEG :: "string \<Rightarrow> string \<Rightarrow> nat \<Rightarrow> nat \<Rightarrow> string"

text \<open>A thrown \<^verbatim>\<open>Error\<close>-like object: its \<open>message\<close>, numeric \<open>status\<close> and \<open>code\<close> when
  present, and the text \<^verbatim>\<open>JSON.stringify\<close> gives for it. Operations and the browser fail
  with such objects; a rejection with \<^verbatim>\<open>undefined\<close> or \<^verbatim>\<open>null\<close>, which has no properties to
  read, is outside the model.\<close>

record jserror =
  message :: "string option"
  status :: "int option"
  code :: "int option"
  json :: string

text \<open>\<^verbatim>\<open>new Error(msg)\<close>.\<close>

definition Error :: "string \<Rightarrow> jserror" where
  "Error msg = \<lparr>message = Some msg, status = None, code = None, json = ''{}''\<rparr>"

text \<open>The resolved value of \<^verbatim>\<open>compressImage\<close>, with the size of the canvas the JPEG was
  encoded from.\<close>

record compressed = ImageData +
  canvas_width :: nat
  canvas_height :: nat

definition compressImage :: "browser \<Rightarrow> string \<Rightarrow> string \<Rightarrow> jserror + compressed" where
  "compressImage br base64Str mime =
     (case decode br base64Str mime of
        None \<Rightarrow> Inl (Error ''Failed to process image'')
      | Some (w0, h0) \<Rightarrow>
          (case canvas_size w0 h0 of (w, h) \<Rightarrow>
             if \<not> context2d br then Inl (Error ''Canvas context not available'')
             else Inr \<lparr>data = encodeJPEG br base64Str mime w h,
                       mimeType = ''image/jpeg'',
                       canvas_width = w, canvas_height = h\<rparr>))"

subsection \<open>retryOperation\<close>

text \<open>\<^verbatim>\<open>String.prototype.includes\<close>: the second string occurs in the first as a contiguous
  run of characters.\<close>

fun str_includes :: "string \<Rightarrow> string \<Rightarrow> bool" where
  "str_includes [] sub = (sub = [])"
| "str_includes (c # cs) sub = (prefix sub (c # cs) \<or> str_includes cs sub)"

text \<open>Lines 73 and 74: \<open>msg\<close> is the message when it is a non-empty string, and the JSON
  text of the error otherwise.\<close>

definition isRateLimit :: "jserror \<Rightarrow> bool" where
  "isRateLimit error =
     (let msg = (case message error of
                   Some m \<Rightarrow> if m \<noteq> [] then m else json error
                 | None \<Rightarrow> json error)
      in str_includes msg ''429'' \<or> status error = Some 429 \<or> code error = Some 429
         \<or> str_includes msg ''quota'' \<or> str_includes msg ''RESOURCE_EXHAUSTED'')"

text \<open>What \<^verbatim>\<open>retryOperation\<close> can throw: an error object it caught, or \<^verbatim>\<open>undefined\<close>
  (the initial \<^verbatim>\<open>lastError\<close>, thrown when the loop body never runs).\<close>

datatype jsthrown = Undefined | Thrown jserror

text \<open>
  The operation is a function on a state \<open>'s\<close> of its own that fails with an error or
  gives a value. \<^verbatim>\<open>retryOperation\<close> runs on a timeline that holds this state, the number
  of invocations of the operation so far and the delays waited so far, in milliseconds.
\<close>

record 's timeline =
  world :: 's
  calls :: nat
  slept :: "int list"

definition wait :: "int \<Rightarrow> 's timeline \<Rightarrow> 's timeline" where
  "wait ms t = t\<lparr>slept := slept t @ [ms]\<rparr>"

text \<open>One invocation of the operation on the timeline.\<close>

definition invoke ::
  "('s \<Rightarrow> (jserror + 'a) \<times> 's) \<Rightarrow> 's timeline \<Rightarrow> (jserror + 'a) \<times> 's timeline" where
  "invoke operation t =
     (case operation (world t) of
        (res, s') \<Rightarrow> (res, t\<lparr>world := s', calls := calls t + 1\<rparr>))"

text \<open>The \<^verbatim>\<open>for\<close> loop of lines 68 to 84, from index \<open>i\<close> on.\<close>

function retry_loop ::
  "('s \<Rightarrow> (jserror + 'a) \<times> 's) \<Rightarrow> int \<Rightarrow> int \<Rightarrow> int \<Rightarrow> jsthrown \<Rightarrow> 's timeline
     \<Rightarrow> (jsthrown + 'a) \<times> 's timeline" where
  "retry_loop operation retries initialDelay i lastError t =
     (if i < retries then
        (case invoke operation t of
           (Inr v, t') \<Rightarrow> (Inr v, t')
         | (Inl error, t') \<Rightarrow>
             if isRateLimit error \<and> i < retries - 1
             then retry_loop operation retries initialDelay (i + 1) (Thrown error)
                    (wait (initialDelay * 2 ^ nat i) t')
             else (Inl (Thrown error), t'))
      else (Inl lastError, t))"
  by pat_completeness auto
termination
  by (relation "measure (\<lambda>(operation, retries, initialDelay, i, lastError, t). nat (retries - i))") auto

definition retryOperation ::
  "('s \<Rightarrow> (jserror + 'a) \<times> 's) \<Rightarrow> int \<Rightarrow> int \<Rightarrow> 's timeline
     \<Rightarrow> (jsthrown + 'a) \<times> 's timeline" where
  "retryOperation operation retries initialDelay t =
     retry_loop operation retries initialDelay 0 Undefined t"

subsection \<open>The remote service\<close>

text \<open>A part of an outbound request: inline image data with its mime type, or text.\<close>

datatype part = InlineData string string | Text string

text \<open>The \<^verbatim>\<open>config\<close> of the edit call: the aspect ratio and optional image size of
  \<^verbatim>\<open>imageConfig\<close>, and the safety settings as (category, threshold) pairs.\<close>

record edit_config =
  cfg_aspectRatio :: string
  cfg_imageSize :: "string option"
  safetySettings :: "(string \<times> string) list"

text \<open>
  An outbound request. \<open>GenerateContent model parts config\<close> is a call of
  \<^verbatim>\<open>ai.models.generateContent\<close>; the analysis call of \<^verbatim>\<open>extractFeatureDescription\<close> passes
  no config, the edit call of \<^verbatim>\<open>generateFutureImage\<close> always passes one.
  \<open>GenerateImages model prompt numberOfImages aspectRatio outputMimeType\<close> is a call of
  \<^verbatim>\<open>ai.models.generateImages\<close>.
\<close>

datatype request =
    GenerateContent string "part list" "edit_config option"
  | GenerateImages string string nat string string

text \<open>A part of a response: one with \<^verbatim>\<open>inlineData\<close> (its data), or one without.\<close>

datatype response_part = InlinePart string | OtherPart

record candidate =
  finishReason :: "string option"
  content_parts :: "response_part list option"

text \<open>\<open>response_text\<close> is the \<^verbatim>\<open>text\<close> accessor of the response.\<close>

record content_response =
  candidates :: "candidate list option"
  response_text :: "string option"

text \<open>\<open>generatedImages\<close> holds the \<^verbatim>\<open>image.imageBytes\<close> of each entry.\<close>

record images_response =
  generatedImages :: "string list option"

text \<open>The SDK client: each call takes the request and the state of the remote service and
  either rejects with an error or resolves with a response.\<close>

record 'r sdk =
  generateContent :: "request \<Rightarrow> 'r \<Rightarrow> (jserror + content_response) \<times> 'r"
  generateImages :: "request \<Rightarrow> 'r \<Rightarrow> (jserror + images_response) \<times> 'r"

text \<open>The state the remote calls act on: the remote service and the log of requests sent.\<close>

record 'r net =
  remote :: 'r
  sent :: "request list"

definition call_content ::
  "'r sdk \<Rightarrow> request \<Rightarrow> 'r net \<Rightarrow> (jserror + content_response) \<times> 'r net" where
  "call_content ai req n =
     (case generateContent ai req (remote n) of
        (res, r') \<Rightarrow> (res, \<lparr>remote = r', sent = sent n @ [req]\<rparr>))"

definition call_images ::
  "'r sdk \<Rightarrow> request \<Rightarrow> 'r net \<Rightarrow> (jserror + images_response) \<times> 'r net" where
  "call_images ai req n =
     (case generateImages ai req (remote n) of
        (res, r') \<Rightarrow> (res, \<lparr>remote = r', sent = sent n @ [req]\<rparr>))"

subsection \<open>extractFeatureDescription\<close>

text \<open>The \<^verbatim>\<open>switch\<close> of lines 99 to 126. The \<^verbatim>\<open>default\<close> branch is for a value outside
  the enum and has no counterpart here.\<close>

fun promptText :: "ReferenceMode \<Rightarrow> string option \<Rightarrow> string" where
  "promptText POSE customPrompt = ''Analyze the image and describe the body pose. Focus on the position of arms, legs, head tilt, and spine curvature. Describe it in a way that an artist could use to pose a model.''"
| "promptText DRESS customPrompt = ''Analyze the clothing in this image. Provide an EXTREMELY DETAILED technical description of the outfit, including specific materials, cuts, textures, patterns, and how it drapes. Ignore the person, focus on the clothes.''"
| "promptText EXPRESSION customPrompt = ''Describe the facial expression and emotion shown in this image. What is the mood?''"
| "promptText STYLE customPrompt = ''Describe the art style, lighting, and medium of this image.''"
| "promptText BACKGROUND customPrompt = ''Describe the setting, background elements, and lighting environment of this scene.''"
| "promptText COMPOSITION customPrompt = ''Describe the camera angle, framing, and composition of this shot.''"
| "promptText CUSTOM None = ''Describe the key distinctive visual attributes of this image.''"
| \<open>promptText CUSTOM (Some c) =
     (if c \<noteq> []
      then ''Analyze the image and provide a detailed description of the following feature: "'' @ c
           @ ''". Describe it specifically so it can be visually replicated.''
      else ''Describe the key distinctive visual attributes of this image.'')\<close>

text \<open>\<open>apiKey\<close> is \<^verbatim>\<open>process.env.API_KEY\<close>. The credential check and the compression are
  outside the \<^verbatim>\<open>try\<close> block; only the remote call is inside it.\<close>

definition extractFeatureDescription ::
  "'r sdk \<Rightarrow> browser \<Rightarrow> string option \<Rightarrow> ImageAsset \<Rightarrow> ReferenceMode \<Rightarrow> string option
     \<Rightarrow> 'r net timeline \<Rightarrow> (jsthrown + string) \<times> 'r net timeline" where
  "extractFeatureDescription ai br apiKey img mode customPrompt t =
     (if \<not> truthy_str apiKey
      then (Inl (Thrown (Error ''API Key not found in environment variables.'')), t)
      else
        (case compressImage br (data img) (mimeType img) of
           Inl e \<Rightarrow> (Inl (Thrown e), t)
         | Inr processed \<Rightarrow>
             (case retryOperation
                     (call_content ai
                        (GenerateContent ''gemini-2.5-flash''
                           [InlineData (data processed) (mimeType processed),
                            Text (promptText mode customPrompt)] None))
                     3 2000 t of
                (Inr response, t') \<Rightarrow>
                   (case response_text response of
                      Some txt \<Rightarrow> (Inr txt, t')
                    | None \<Rightarrow> (Inr [], t'))
              | (Inl error, t') \<Rightarrow> (Inr [], t'))))"

subsection \<open>generateFutureImage\<close>

text \<open>The number held by a truthy optional number (read under \<open>truthy_num\<close> only).\<close>

fun number_of :: "int option \<Rightarrow> rat" where
  "number_of (Some n) = of_int n"
| "number_of None = 0"

text \<open>Lines 167 to 180. The result is a string: the cast of line 177 is not checked.\<close>

definition targetRatio :: "ImageAsset \<Rightarrow> GenerationConfig \<Rightarrow> string" where
  "targetRatio sourceImage config =
     (if aspectRatio config = SAME_AS_SOURCE
         \<and> truthy_num (width sourceImage) \<and> truthy_num (height sourceImage)
      then getClosestSupportedRatio (number_of (width sourceImage)) (number_of (height sourceImage))
      else if aspectRatio config = SAME_AS_SOURCE then aspect_value SQUARE
      else aspect_value (aspectRatio config))"

text \<open>Lines 190 to 193: the ratio sent to the text-to-image model.\<close>

definition imagenAspect :: "string \<Rightarrow> string" where
  "imagenAspect ratio =
     (if ratio = aspect_value SQUARE then ''1:1''
      else if ratio = aspect_value LANDSCAPE then ''4:3''
      else if ratio = aspect_value WIDE_LANDSCAPE then ''16:9''
      else if ratio = aspect_value PORTRAIT then ''3:4''
      else ''9:16'')"

text \<open>The \<^verbatim>\<open>TypeError\<close> of reading \<^verbatim>\<open>message\<close> from \<^verbatim>\<open>undefined\<close> in a handler.\<close>

definition TypeError_undefined :: jserror where
  "TypeError_undefined = Error ''Cannot read properties of undefined (reading 'message')''"

text \<open>\<^verbatim>\<open>${e.message}\<close> in a template literal.\<close>

fun template_message :: "jserror \<Rightarrow> string" where
  "template_message e = (case message e of Some m \<Rightarrow> m | None \<Rightarrow> ''undefined'')"

text \<open>Lines 183 to 205: the text-to-image path.\<close>

definition imagenPath ::
  "'r sdk \<Rightarrow> GenerationConfig \<Rightarrow> string \<Rightarrow> 'r net timeline \<Rightarrow> (jserror + string) \<times> 'r net timeline" where
  "imagenPath ai config ratio t =
     (case retryOperation
             (call_images ai
                (GenerateImages (model_value IMAGEN_4) (prompt config) 1 (imagenAspect ratio)
                   ''image/jpeg''))
             3 2000 t of
        (Inr response, t') \<Rightarrow>
           (case generatedImages response of
              Some (imageBytes # rest) \<Rightarrow> (Inr imageBytes, t')
            | _ \<Rightarrow> (Inl (Error ''Imagen Generation Failed: No image generated by Imagen.''), t'))
      | (Inl (Thrown e), t') \<Rightarrow>
           (Inl (Error (''Imagen Generation Failed: '' @ template_message e)), t')
      | (Inl Undefined, t') \<Rightarrow> (Inl TypeError_undefined, t'))"

text \<open>Lines 211 to 221: the guidance text. A failure of the extraction is caught.\<close>

definition guidanceDescription ::
  "'r sdk \<Rightarrow> browser \<Rightarrow> string option \<Rightarrow> ImageAsset option \<Rightarrow> GenerationConfig
     \<Rightarrow> 'r net timeline \<Rightarrow> string \<times> 'r net timeline" where
  \<open>guidanceDescription ai br apiKey referenceImage config t =
     (case (referenceImage, referenceMode config) of
        (Some ref, Some mode) \<Rightarrow>
           (case extractFeatureDescription ai br apiKey ref mode (customReferencePrompt config) t of
              (Inr desc, t') \<Rightarrow>
                 (if desc \<noteq> []
                  then (''\<newline>VISUAL DESCRIPTION OF REFERENCE (for guidance): "'' @ desc @ ''"\<newline>'', t')
                  else ([], t'))
            | (Inl e, t') \<Rightarrow> ([], t'))
      | _ \<Rightarrow> ([], t))\<close>

text \<open>Line 295.\<close>

definition feature :: "GenerationConfig \<Rightarrow> string" where
  "feature config =
     (case customReferencePrompt config of
        Some c \<Rightarrow> if c \<noteq> [] then c else ''feature''
      | None \<Rightarrow> ''feature'')"

text \<open>The \<^verbatim>\<open>switch\<close> of lines 265 to 300; without a reference mode no case applies.\<close>

fun modeDirective :: "ReferenceMode option \<Rightarrow> GenerationConfig \<Rightarrow> string" where
  "modeDirective None config = []"
| "modeDirective (Some POSE) config =
     ''\<newline>MODE: POSE MATCHING\<newline>''
     @ ''1. The character MUST adopt the EXACT pose of the Reference Image.\<newline>''
     @ ''2. ALIGNMENT: Match limb angles, head tilt, and spine curvature to the reference.\<newline>''
     @ ''3. REFERENCE TRUTH: The Reference Image is the ground truth for the pose. Follow it strictly.\<newline>''"
| "modeDirective (Some DRESS) config =
     ''\<newline>MODE: OUTFIT TRANSFER\<newline>''
     @ ''1. TARGET: Create an EXACT DIGITAL REPLICA of the outfit from the Reference Image on the Source Character.\<newline>''
     @ ''2. DETAILS: Match the fabric texture, gloss, material weight, seams, buttons, and accessories pixel-for-pixel where possible.\<newline>''
     @ ''3. FIT: Draping must follow the source character's body naturally but strictly adhere to the reference design.\<newline>''"
| "modeDirective (Some EXPRESSION) config =
     ''\<newline>MODE: EXPRESSION MATCHING\<newline>''
     @ ''1. Adjust the Source Character's facial expression to match the emotion of the Reference Image.\<newline>''"
| "modeDirective (Some STYLE) config =
     ''\<newline>MODE: STYLE TRANSFER\<newline>''
     @ ''1. Re-render the Source Character using the artistic style and medium of the Reference Image.\<newline>''"
| "modeDirective (Some BACKGROUND) config =
     ''\<newline>MODE: BACKGROUND TRANSFER\<newline>''
     @ ''1. Place the Source Character into a setting that matches the Reference Image's background.\<newline>''"
| "modeDirective (Some COMPOSITION) config =
     ''\<newline>MODE: COMPOSITION MATCHING\<newline>''
     @ ''1. Frame the Source Character similarly to the Reference Image (camera angle, framing).\<newline>''"
| "modeDirective (Some CUSTOM) config =
     ''\<newline>MODE: CUSTOM TRANSFER ('' @ feature config @ '')\<newline>''
     @ ''1. Transfer the '' @ feature config @ '' from the Reference Image to the Source Character.\<newline>''
     @ ''2. Blend the '' @ feature config @ '' naturally with the Source Character while preserving their identity.\<newline>''"

text \<open>\<^verbatim>\<open>s.trim()\<close> is truthy when some character of \<open>s\<close> is not white space. A character
  here is a code unit below 256; among those, \<^verbatim>\<open>trim\<close> strips the tab, the line feed, the
  vertical tab, the form feed, the carriage return, the space and the no-break space.\<close>

definition is_space :: "char \<Rightarrow> bool" where
  "is_space c \<longleftrightarrow>
     c \<in> {CHR 0x09, CHR 0x0A, CHR 0x0B, CHR 0x0C, CHR 0x0D, CHR 0x20, CHR 0xA0}"

definition trim_truthy :: "string \<Rightarrow> bool" where
  "trim_truthy s \<longleftrightarrow> (\<exists>c \<in> set s. \<not> is_space c)"

text \<open>Lines 250 to 308: the instruction text. \<open>hasRef\<close> tells whether \<^verbatim>\<open>processedRef\<close> is set,
  \<open>guidance\<close> is the guidance text.\<close>

definition instruction :: "bool \<Rightarrow> string \<Rightarrow> GenerationConfig \<Rightarrow> string" where
  \<open>instruction hasRef guidance config =
     (if hasRef then
        ''I have provided TWO images above.\<newline>''
        @ ''- First Image: Source Character (The person to be modified).\<newline>''
        @ ''- Second Image: Reference Style/Attribute.\<newline>\<newline>''
        @ ''TASK: Create a high-quality NEW image of the Source Character that adopts the specific attribute from the Reference Image.\<newline>''
        @ ''IMPORTANT: Maintain the facial identity and physical likeness of the Source Character.\<newline>''
        @ (if guidance \<noteq> [] then guidance @ ''\<newline>'' else [])
        @ modeDirective (referenceMode config) config
      else
        ''I have provided ONE image. It is the Source Image.\<newline>''
        @ ''TASK: Edit this image based on the user instructions. PRESERVE IDENTITY.\<newline>'')
     @ (if prompt config \<noteq> [] \<and> trim_truthy (prompt config)
        then ''\<newline>USER INSTRUCTIONS: "'' @ prompt config @ ''"\<newline>''
        else [])\<close>

text \<open>Lines 230 to 247 and 310: the parts of the edit request.\<close>

definition edit_parts :: "compressed \<Rightarrow> compressed option \<Rightarrow> string \<Rightarrow> part list" where
  "edit_parts processedSource processedRef instr =
     [InlineData (data processedSource) (mimeType processedSource)]
     @ (case processedRef of
          Some r \<Rightarrow> [InlineData (data r) (mimeType r)]
        | None \<Rightarrow> [])
     @ [Text instr]"

text \<open>Lines 318 to 330: the config of the edit request.\<close>

definition editConfig :: "ModelId \<Rightarrow> string \<Rightarrow> edit_config" where
  "editConfig model ratio =
     \<lparr>cfg_aspectRatio = ratio,
      cfg_imageSize = (if model = GEMINI_3_PRO then Some ''1K'' else None),
      safetySettings =
        [(''HARM_CATEGORY_HARASSMENT'', ''BLOCK_ONLY_HIGH''),
         (''HARM_CATEGORY_HATE_SPEECH'', ''BLOCK_ONLY_HIGH''),
         (''HARM_CATEGORY_SEXUALLY_EXPLICIT'', ''BLOCK_ONLY_HIGH''),
         (''HARM_CATEGORY_DANGEROUS_CONTENT'', ''BLOCK_ONLY_HIGH'')]\<rparr>"

text \<open>Line 333: \<^verbatim>\<open>response.candidates?.[0]\<close>.\<close>

definition first_candidate :: "content_response \<Rightarrow> candidate option" where
  "first_candidate response =
     (case candidates response of
        Some (c # cs) \<Rightarrow> Some c
      | _ \<Rightarrow> None)"

text \<open>Lines 348 to 356: the data of the first part with inline data, or the error.\<close>

fun first_inline :: "response_part list \<Rightarrow> string option" where
  "first_inline [] = None"
| "first_inline (InlinePart d # ps) = Some d"
| "first_inline (OtherPart # ps) = first_inline ps"

definition image_of :: "candidate \<Rightarrow> jserror + string" where
  "image_of cand =
     (case content_parts cand of
        Some ps \<Rightarrow>
          (case first_inline ps of
             Some d \<Rightarrow> Inr d
           | None \<Rightarrow> Inl (Error ''The model generated a text response instead of an image. Please try adjusting your prompt.''))
      | None \<Rightarrow> Inl (Error ''The model generated a text response instead of an image. Please try adjusting your prompt.''))"

text \<open>Lines 333 to 356: what the \<^verbatim>\<open>try\<close> block does with the response.\<close>

definition interpretResponse :: "content_response \<Rightarrow> jserror + string" where
  "interpretResponse response =
     (case first_candidate response of
        None \<Rightarrow> Inl (Error ''No response from AI model.'')
      | Some cand \<Rightarrow>
          (case finishReason cand of
             None \<Rightarrow> image_of cand
           | Some reason \<Rightarrow>
               if reason \<noteq> [] \<and> reason \<noteq> ''STOP'' then
                 (if reason = ''RECITATION'' \<or> reason = ''IMAGE_RECITATION'' \<or> reason = ''SAFETY''
                  then Inl (Error (''Generation blocked: The request was flagged for '' @ reason
                         @ '' (likely too close to a protected image or person). Try a different reference.''))
                  else Inl (Error (''Generation blocked by filter: '' @ reason)))
               else image_of cand))"

text \<open>Lines 357 to 360: the handler wraps the message of whatever was thrown.\<close>

definition rewrap :: "jserror \<Rightarrow> jserror" where
  "rewrap error =
     Error (case message error of
              Some m \<Rightarrow> if m \<noteq> [] then m else ''Failed to generate image.''
            | None \<Rightarrow> ''Failed to generate image.'')"

fun editOutcome :: "jsthrown + content_response \<Rightarrow> jserror + string" where
  "editOutcome (Inr response) =
     (case interpretResponse response of
        Inl error \<Rightarrow> Inl (rewrap error)
      | Inr imageData \<Rightarrow> Inr imageData)"
| "editOutcome (Inl (Thrown error)) = Inl (rewrap error)"
| "editOutcome (Inl Undefined) = Inl TypeError_undefined"

text \<open>Line 225 to 228: the reference image is compressed when there is one.\<close>

definition compressRef :: "browser \<Rightarrow> ImageAsset option \<Rightarrow> jserror + compressed option" where
  "compressRef br referenceImage =
     (case referenceImage of
        None \<Rightarrow> Inr None
      | Some ref \<Rightarrow>
          (case compressImage br (data ref) (mimeType ref) of
             Inl e \<Rightarrow> Inl e
           | Inr p \<Rightarrow> Inr (Some p)))"

text \<open>The edit request of lines 313 to 331.\<close>

definition editRequest ::
  "ModelId \<Rightarrow> string \<Rightarrow> compressed \<Rightarrow> compressed option \<Rightarrow> string \<Rightarrow> GenerationConfig \<Rightarrow> request" where
  "editRequest model ratio processedSource processedRef guidance config =
     GenerateContent (model_value model)
       (edit_parts processedSource processedRef (instruction (processedRef \<noteq> None) guidance config))
       (Some (editConfig model ratio))"

text \<open>Lines 208 to 360: the image editing path.\<close>

definition editPath ::
  "'r sdk \<Rightarrow> browser \<Rightarrow> string option \<Rightarrow> ImageAsset \<Rightarrow> ImageAsset option \<Rightarrow> GenerationConfig
     \<Rightarrow> ModelId \<Rightarrow> string \<Rightarrow> 'r net timeline \<Rightarrow> (jserror + string) \<times> 'r net timeline" where
  "editPath ai br apiKey sourceImage referenceImage config model ratio t =
     (case guidanceDescription ai br apiKey referenceImage config t of
        (guidance, t1) \<Rightarrow>
          (case compressImage br (data sourceImage) (mimeType sourceImage) of
             Inl e \<Rightarrow> (Inl e, t1)
           | Inr processedSource \<Rightarrow>
               (case compressRef br referenceImage of
                  Inl e \<Rightarrow> (Inl e, t1)
                | Inr processedRef \<Rightarrow>
                    (case retryOperation
                            (call_content ai
                               (editRequest model ratio processedSource processedRef guidance config))
                            3 2000 t1 of
                       (res, t2) \<Rightarrow> (editOutcome res, t2)))))"

definition generateFutureImage ::
  "'r sdk \<Rightarrow> browser \<Rightarrow> string option \<Rightarrow> ImageAsset \<Rightarrow> ImageAsset option \<Rightarrow> GenerationConfig
     \<Rightarrow> 'r net timeline \<Rightarrow> (jserror + string) \<times> 'r net timeline" where
  "generateFutureImage ai br apiKey sourceImage referenceImage config t =
     (if \<not> truthy_str apiKey
      then (Inl (Error ''API Key not found in environment variables.''), t)
      else
        (let model = (case modelId config of Some m \<Rightarrow> m | None \<Rightarrow> GEMINI_2_5);
             ratio = targetRatio sourceImage config
         in if model = IMAGEN_4 then imagenPath ai config ratio t
            else editPath ai br apiKey sourceImage referenceImage config model ratio t))"


subsection \<open>Example environments\<close>

text \<open>A browser that decodes every image as 800 by 600, except the data \<open>''bad''\<close>, which
  does not decode.\<close>

definition example_browser :: browser where
  "example_browser =
     \<lparr>decode = (\<lambda>d m. if d = ''bad'' then None else Some (800, 600)),
      context2d = True,
      encodeJPEG = (\<lambda>d m w h. ''jpeg-of-'' @ d)\<rparr>"

text \<open>A service whose state counts the calls. It answers an analysis call with a text, an
  edit call with one candidate that holds a text part and an image, and a text-to-image
  call with one image.\<close>

definition example_sdk :: "nat sdk" where
  "example_sdk =
     \<lparr>generateContent = (\<lambda>req n.
        case req of
          GenerateContent m ps None \<Rightarrow>
            (Inr \<lparr>candidates = None, response_text = Some ''a red coat''\<rparr>, n + 1)
        | _ \<Rightarrow>
            (Inr \<lparr>candidates = Some [\<lparr>finishReason = Some ''STOP'',
                                       content_parts = Some [OtherPart, InlinePart ''IMG'']\<rparr>],
                  response_text = None\<rparr>, n + 1)),
      generateImages = (\<lambda>req n. (Inr \<lparr>generatedImages = Some [''GEN'']\<rparr>, n + 1))\<rparr>"

text \<open>A service that rejects every call with a server error.\<close>

definition failing_sdk :: "nat sdk" where
  "failing_sdk =
     \<lparr>generateContent = (\<lambda>req n. (Inl (Error ''500 Internal''), n + 1)),
      generateImages = (\<lambda>req n. (Inl (Error ''500 Internal''), n + 1))\<rparr>"

text \<open>A service that answers every content call with a candidate blocked for safety.\<close>

definition blocking_sdk :: "nat sdk" where
  "blocking_sdk =
     \<lparr>generateContent = (\<lambda>req n.
        (Inr \<lparr>candidates = Some [\<lparr>finishReason = Some ''SAFETY'', content_parts = None\<rparr>],
              response_text = None\<rparr>, n + 1)),
      generateImages = (\<lambda>req n. (Inr \<lparr>generatedImages = None\<rparr>, n + 1))\<rparr>"

definition start :: "nat net timeline" where
  "start = \<lparr>world = \<lparr>remote = 0, sent = []\<rparr>, calls = 0, slept = []\<rparr>"

definition source_800_600 :: ImageAsset where
  "source_800_600 = \<lparr>data = ''src'', mimeType = ''image/png'', width = Some 800, height = Some 600\<rparr>"

definition reference_unsized :: ImageAsset where
  "reference_unsized = \<lparr>data = ''ref'', mimeType = ''image/png'', width = None, height = None\<rparr>"

definition undecodable :: ImageAsset where
  "undecodable = \<lparr>data = ''bad'', mimeType = ''image/png'', width = None, height = None\<rparr>"

section \<open>Properties\<close>

subsection \<open>Rounding to a double\<close>

lemma round_even_error: "\<bar>of_int (round_even y) - y\<bar> \<le> 1 / 2"
proof -
  have "of_int \<lfloor>y\<rfloor> \<le> y" and "y < of_int \<lfloor>y\<rfloor> + 1" by linarith+
  then show ?thesis
    unfolding round_even_def Let_def by (auto simp: abs_le_iff)
qed

lemma exponent_le:
  assumes "0 < x"
  shows "2 powi exponent x \<le> x"
proof (cases "1 \<le> x")
  case True
  then have pos: "0 < \<lfloor>x\<rfloor>" by linarith
  from bitlen_bounds[OF pos] have "2 ^ nat (bitlen \<lfloor>x\<rfloor> - 1) \<le> \<lfloor>x\<rfloor>" by simp
  then have "(of_int (2 ^ nat (bitlen \<lfloor>x\<rfloor> - 1)) :: rat) \<le> x"
    by (simp only: le_floor_iff)
  then have "(2::rat) ^ nat (bitlen \<lfloor>x\<rfloor> - 1) \<le> x" by simp
  moreover have "1 \<le> bitlen \<lfloor>x\<rfloor>" using pos by (simp add: bitlen_alt_def)
  ultimately show ?thesis using True by (simp add: exponent_def power_int_def)
next
  case False
  define y where "y = 1 / x"
  define j where "j = bitlen \<lfloor>y\<rfloor> - 1"
  from False assms have y1: "1 < y" by (simp add: y_def)
  then have pos: "0 < \<lfloor>y\<rfloor>" by linarith
  have j0: "0 \<le> j" using pos by (simp add: j_def bitlen_alt_def)
  show ?thesis
  proof (cases "x = 1 / 2 ^ nat j")
    case True
    then have "exponent x = - j" using False by (simp add: exponent_def j_def y_def Let_def)
    moreover have "(2::rat) powi (- j) = 1 / 2 ^ nat j"
      using j0 by (simp add: power_int_def field_simps)
    ultimately show ?thesis using True by simp
  next
    case ne: False
    then have e: "exponent x = - j - 1" using False by (simp add: exponent_def j_def y_def Let_def)
    from bitlen_bounds[OF pos] have "\<lfloor>y\<rfloor> < 2 ^ nat (bitlen \<lfloor>y\<rfloor>)" by simp
    then have "\<lfloor>y\<rfloor> + 1 \<le> 2 ^ nat (j + 1)" by (simp add: j_def)
    then have "(of_int (\<lfloor>y\<rfloor> + 1) :: rat) \<le> of_int (2 ^ nat (j + 1))"
      by (simp only: of_int_le_iff)
    moreover have "y < of_int (\<lfloor>y\<rfloor> + 1)" by simp linarith
    ultimately have "y < 2 ^ nat (j + 1)" by simp
    then have "1 / 2 ^ nat (j + 1) < x"
      using assms by (simp add: y_def field_simps)
    moreover have "(2::rat) powi (- j - 1) = 1 / 2 ^ nat (j + 1)"
      using j0 by (simp add: power_int_def field_simps nat_add_distrib)
    ultimately show ?thesis unfolding e by simp
  qed
qed

lemma double_of_error: "\<bar>double_of x - x\<bar> \<le> \<bar>x\<bar> / 2 ^ 53"
proof (cases "x = 0")
  case True
  then show ?thesis by (simp add: double_of_def)
next
  case False
  define e where "e = exponent \<bar>x\<bar>"
  define q :: rat where "q = 2 powi (e - 52)"
  have q0: "0 < q" by (simp add: q_def)
  have d: "double_of x = of_int (round_even (x / q)) * q"
    using False by (simp add: double_of_def q_def e_def Let_def)
  have "double_of x - x = (of_int (round_even (x / q)) - x / q) * q"
    using q0 unfolding d by (simp add: field_simps)
  then have "\<bar>double_of x - x\<bar> = \<bar>of_int (round_even (x / q)) - x / q\<bar> * q"
    using q0 by (simp add: abs_mult)
  also have "\<dots> \<le> (1 / 2) * q"
    using round_even_error[of "x / q"] q0 by (intro mult_right_mono) simp_all
  also have "(1 / 2) * q = 2 powi e / 2 ^ 53"
    by (simp add: q_def power_int_diff)
  also have "\<dots> \<le> \<bar>x\<bar> / 2 ^ 53"
    using exponent_le[of "\<bar>x\<bar>"] False by (simp add: e_def divide_right_mono)
  finally show ?thesis .
qed

subsection \<open>Selection of the closest ratio\<close>

lemma distance_error:
  assumes "val e = v" and "0 \<le> v" and "v \<le> 2" and "0 \<le> r"
  shows "\<bar>distance (double_of r) e - \<bar>v - r\<bar>\<bar> \<le> (2 + r) / 2 ^ 51"
proof -
  define vt where "vt = double_of v"
  define rt where "rt = double_of r"
  define x where "x = vt - rt"
  define ev where "ev = v / 2 ^ 53"
  define er where "er = r / 2 ^ 53"
  define ex where "ex = (2 + r) / 2 ^ 52"
  define et where "et = (2 + r) / 2 ^ 51"
  have e1: "\<bar>vt - v\<bar> \<le> ev"
    using double_of_error[of v] assms(2) by (simp add: vt_def ev_def)
  have e2: "\<bar>rt - r\<bar> \<le> er"
    using double_of_error[of r] assms(4) by (simp add: rt_def er_def)
  have e3: "\<bar>double_of x - x\<bar> \<le> \<bar>x\<bar> / 2 ^ 53"
    by (rule double_of_error)
  have s1: "ev \<le> v" "er \<le> r"
    using assms(2,4) by (simp_all add: ev_def er_def divide_le_eq)
  have x: "\<bar>x\<bar> \<le> 4 + 2 * r"
    using e1 e2 s1 assms(2,3,4) unfolding x_def by linarith
  then have "\<bar>x\<bar> / 2 ^ 53 \<le> (4 + 2 * r) / 2 ^ 53" by (simp add: divide_right_mono)
  also have "\<dots> = ex" by (simp add: ex_def field_simps)
  finally have e3': "\<bar>double_of x - x\<bar> \<le> ex" using e3 by simp
  have s2: "ev + er + ex \<le> et"
    using assms(3,4) by (simp add: ev_def er_def ex_def et_def field_simps)
  have "\<bar>double_of x - (v - r)\<bar> \<le> et"
    using e1 e2 e3' s2 unfolding x_def by linarith
  moreover have "\<bar>\<bar>double_of x\<bar> - \<bar>v - r\<bar>\<bar> \<le> \<bar>double_of x - (v - r)\<bar>"
    by (rule abs_triangle_ineq3)
  ultimately have "\<bar>\<bar>double_of x\<bar> - \<bar>v - r\<bar>\<bar> \<le> et" by (rule order_trans[rotated])
  then show ?thesis by (simp add: distance_def assms(1) x_def vt_def rt_def et_def)
qed

lemma supported_vals:
  assumes "i < 5"
  shows "\<exists>a::int. val (supported ! i) = of_int a / 400"
    and "0 \<le> val (supported ! i)" and "val (supported ! i) \<le> 2"
proof -
  from assms have c: "i = 0 \<or> i = 1 \<or> i = 2 \<or> i = 3 \<or> i = 4" by linarith
  have "val (supported ! 0) = of_int 400 / 400" "val (supported ! 1) = of_int 300 / 400"
    "val (supported ! 2) = of_int 532 / 400" "val (supported ! 3) = of_int 225 / 400"
    "val (supported ! 4) = of_int 708 / 400"
    by (simp_all add: supported_def)
  with c show "\<exists>a::int. val (supported ! i) = of_int a / 400" by blast
  from c show "0 \<le> val (supported ! i)" and "val (supported ! i) \<le> 2"
    by (auto simp: supported_def)
qed

lemma supported_distinct:
  assumes "p < q" and "q < 5"
  shows "val (supported ! p) \<noteq> val (supported ! q)"
proof -
  from assms have "(p = 0 \<or> p = 1 \<or> p = 2 \<or> p = 3) \<and> (q = 1 \<or> q = 2 \<or> q = 3 \<or> q = 4) \<and> p \<noteq> q"
    by linarith
  then show ?thesis by (auto simp: supported_def)
qed

text \<open>With integer sizes, two exact distances are equal or differ by at least
  \<open>1 / (400 * h)\<close>, and they are equal only at the mid point.\<close>

lemma exact_distance:
  fixes a w h :: int
  assumes "0 < h"
  shows "\<bar>of_int a / 400 - (of_int w / of_int h :: rat)\<bar> = of_int \<bar>a * h - 400 * w\<bar> / (400 * of_int h)"
proof -
  have "of_int a / 400 - (of_int w / of_int h :: rat) = of_int (a * h - 400 * w) / (400 * of_int h)"
    using assms by (simp add: field_simps)
  then show ?thesis using assms by (simp add: abs_divide del: of_int_diff of_int_mult)
qed

lemma separation:
  fixes a b w h :: int
  assumes "0 < h"
    and "\<bar>of_int a / 400 - (of_int w / of_int h :: rat)\<bar> < \<bar>of_int b / 400 - of_int w / of_int h\<bar>"
  shows "\<bar>of_int a / 400 - (of_int w / of_int h :: rat)\<bar> + 1 / (400 * of_int h)
           \<le> \<bar>of_int b / 400 - of_int w / of_int h\<bar>"
proof -
  have h: "(0::rat) < 400 * of_int h" using assms(1) by simp
  from assms(2) have "(of_int \<bar>a * h - 400 * w\<bar> :: rat) < of_int \<bar>b * h - 400 * w\<bar>"
    unfolding exact_distance[OF assms(1)] using h by (simp add: divide_less_cancel)
  then have "\<bar>a * h - 400 * w\<bar> < \<bar>b * h - 400 * w\<bar>" by (simp only: of_int_less_iff)
  then have "\<bar>a * h - 400 * w\<bar> + 1 \<le> \<bar>b * h - 400 * w\<bar>" by simp
  then have "(of_int (\<bar>a * h - 400 * w\<bar> + 1) :: rat) \<le> of_int \<bar>b * h - 400 * w\<bar>"
    by (simp only: of_int_le_iff)
  then have "(of_int \<bar>a * h - 400 * w\<bar> + 1) / (400 * of_int h)
               \<le> (of_int \<bar>b * h - 400 * w\<bar> :: rat) / (400 * of_int h)"
    using h by (simp add: divide_le_cancel)
  then show ?thesis
    unfolding exact_distance[OF assms(1)] by (simp add: add_divide_distrib)
qed

lemma mid_point:
  fixes a b w h :: int
  assumes "0 < h" and "a \<noteq> b"
    and "\<bar>of_int a / 400 - (of_int w / of_int h :: rat)\<bar> = \<bar>of_int b / 400 - of_int w / of_int h\<bar>"
  shows "(of_int w / of_int h :: rat) = (of_int a / 400 + of_int b / 400) / 2"
proof -
  from assms(3) have "of_int a / 400 - (of_int w / of_int h :: rat) = of_int b / 400 - of_int w / of_int h
      \<or> of_int a / 400 - (of_int w / of_int h :: rat) = - (of_int b / 400 - of_int w / of_int h)"
    by (simp add: abs_eq_iff)
  then show ?thesis
  proof
    assume "of_int a / 400 - (of_int w / of_int h :: rat) = of_int b / 400 - of_int w / of_int h"
    then have "(of_int a :: rat) = of_int b" by simp
    with assms(2) show ?thesis by simp
  next
    assume *: "of_int a / 400 - (of_int w / of_int h :: rat) = - (of_int b / 400 - of_int w / of_int h)"
    define R :: rat where "R = of_int w / of_int h"
    from * have "of_int a / 400 - R = - (of_int b / 400 - R)" by (simp only: R_def)
    then have "R = (of_int a / 400 + of_int b / 400) / 2" by (simp add: field_simps)
    then show ?thesis by (simp only: R_def)
  qed
qed

text \<open>At the mid point of two entries the later one is not strictly closer in double
  arithmetic either.\<close>

lemma ties:
  assumes "p < q" and "q < 5"
  shows "\<not> distance (double_of ((val (supported ! p) + val (supported ! q)) / 2)) (supported ! q)
           < distance (double_of ((val (supported ! p) + val (supported ! q)) / 2)) (supported ! p)"
proof -
  have t01: "\<not> distance (double_of ((val (supported ! 0) + val (supported ! 1)) / 2)) (supported ! 1)
               < distance (double_of ((val (supported ! 0) + val (supported ! 1)) / 2)) (supported ! 0)"
    by code_simp
  have t02: "\<not> distance (double_of ((val (supported ! 0) + val (supported ! 2)) / 2)) (supported ! 2)
               < distance (double_of ((val (supported ! 0) + val (supported ! 2)) / 2)) (supported ! 0)"
    by code_simp
  have t03: "\<not> distance (double_of ((val (supported ! 0) + val (supported ! 3)) / 2)) (supported ! 3)
               < distance (double_of ((val (supported ! 0) + val (supported ! 3)) / 2)) (supported ! 0)"
    by code_simp
  have t04: "\<not> distance (double_of ((val (supported ! 0) + val (supported ! 4)) / 2)) (supported ! 4)
               < distance (double_of ((val (supported ! 0) + val (supported ! 4)) / 2)) (supported ! 0)"
    by code_simp
  have t12: "\<not> distance (double_of ((val (supported ! 1) + val (supported ! 2)) / 2)) (supported ! 2)
               < distance (double_of ((val (supported ! 1) + val (supported ! 2)) / 2)) (supported ! 1)"
    by code_simp
  have t13: "\<not> distance (double_of ((val (supported ! 1) + val (supported ! 3)) / 2)) (supported ! 3)
               < distance (double_of ((val (supported ! 1) + val (supported ! 3)) / 2)) (supported ! 1)"
    by code_simp
  have t14: "\<not> distance (double_of ((val (supported ! 1) + val (supported ! 4)) / 2)) (supported ! 4)
               < distance (double_of ((val (supported ! 1) + val (supported ! 4)) / 2)) (supported ! 1)"
    by code_simp
  have t23: "\<not> distance (double_of ((val (supported ! 2) + val (supported ! 3)) / 2)) (supported ! 3)
               < distance (double_of ((val (supported ! 2) + val (supported ! 3)) / 2)) (supported ! 2)"
    by code_simp
  have t24: "\<not> distance (double_of ((val (supported ! 2) + val (supported ! 4)) / 2)) (supported ! 4)
               < distance (double_of ((val (supported ! 2) + val (supported ! 4)) / 2)) (supported ! 2)"
    by code_simp
  have t34: "\<not> distance (double_of ((val (supported ! 3) + val (supported ! 4)) / 2)) (supported ! 4)
               < distance (double_of ((val (supported ! 3) + val (supported ! 4)) / 2)) (supported ! 3)"
    by code_simp
  from assms have "(p = 0 \<and> q = 1) \<or> (p = 0 \<and> q = 2) \<or> (p = 0 \<and> q = 3) \<or> (p = 0 \<and> q = 4) \<or> (p = 1 \<and> q = 2) \<or> (p = 1 \<and> q = 3) \<or> (p = 1 \<and> q = 4) \<or> (p = 2 \<and> q = 3) \<or> (p = 2 \<and> q = 4) \<or> (p = 3 \<and> q = 4)"
  proof -
    from assms have "p = 0 \<or> p = 1 \<or> p = 2 \<or> p = 3" and "q = 1 \<or> q = 2 \<or> q = 3 \<or> q = 4"
      by linarith+
    with assms(1) show ?thesis by auto
  qed
  then show ?thesis
  proof (elim disjE conjE)
    assume pq: "p = 0" "q = 1"
    show ?thesis unfolding pq by (rule t01)
  next
    assume pq: "p = 0" "q = 2"
    show ?thesis unfolding pq by (rule t02)
  next
    assume pq: "p = 0" "q = 3"
    show ?thesis unfolding pq by (rule t03)
  next
    assume pq: "p = 0" "q = 4"
    show ?thesis unfolding pq by (rule t04)
  next
    assume pq: "p = 1" "q = 2"
    show ?thesis unfolding pq by (rule t12)
  next
    assume pq: "p = 1" "q = 3"
    show ?thesis unfolding pq by (rule t13)
  next
    assume pq: "p = 1" "q = 4"
    show ?thesis unfolding pq by (rule t14)
  next
    assume pq: "p = 2" "q = 3"
    show ?thesis unfolding pq by (rule t23)
  next
    assume pq: "p = 2" "q = 4"
    show ?thesis unfolding pq by (rule t24)
  next
    assume pq: "p = 3" "q = 4"
    show ?thesis unfolding pq by (rule t34)
  qed
qed

text \<open>For integer sizes up to \<open>2 ^ 32\<close> the comparison of the callback, made on doubles,
  decides as the comparison of the exact distances.\<close>

lemma compare_agrees:
  fixes w h :: int
  assumes "0 < w" and "w \<le> 2 ^ 32" and "0 < h" and "h \<le> 2 ^ 32" and "p < q" and "q < 5"
  shows "distance (double_of (of_int w / of_int h)) (supported ! q)
           < distance (double_of (of_int w / of_int h)) (supported ! p)
         \<longleftrightarrow> \<bar>val (supported ! q) - of_int w / of_int h\<bar> < \<bar>val (supported ! p) - of_int w / of_int h\<bar>"
proof -
  define r :: rat where "r = of_int w / of_int h"
  define eps where "eps = (2 + r) / 2 ^ 51"
  define gap :: rat where "gap = 1 / (400 * of_int h)"
  define dp where "dp = \<bar>val (supported ! p) - r\<bar>"
  define dq where "dq = \<bar>val (supported ! q) - r\<bar>"
  define Dp where "Dp = distance (double_of r) (supported ! p)"
  define Dq where "Dq = distance (double_of r) (supported ! q)"
  have p5: "p < 5" using assms(5,6) by simp
  from supported_vals(1)[OF p5] obtain a :: int where a: "val (supported ! p) = of_int a / 400" ..
  from supported_vals(1)[OF assms(6)] obtain b :: int where b: "val (supported ! q) = of_int b / 400" ..
  from supported_distinct[OF assms(5,6)] a b have ab: "a \<noteq> b" by auto
  have r0: "0 \<le> r" using assms(1,3) by (simp add: r_def)
  have ep: "\<bar>Dp - dp\<bar> \<le> eps"
    unfolding Dp_def dp_def eps_def
    by (rule distance_error[OF refl supported_vals(2)[OF p5] supported_vals(3)[OF p5] r0])
  have eq: "\<bar>Dq - dq\<bar> \<le> eps"
    unfolding Dq_def dq_def eps_def
    by (rule distance_error[OF refl supported_vals(2)[OF assms(6)] supported_vals(3)[OF assms(6)] r0])
  have "800 * (2 * h + w) < (2::int) ^ 51" using assms(2,4) by simp
  then have "(of_int (800 * (2 * h + w)) :: rat) < of_int (2 ^ 51)" by (simp only: of_int_less_iff)
  then have "800 * (2 * of_int h + of_int w) < (2::rat) ^ 51" by simp
  then have c1: "800 * (2 * of_int h + of_int w) / (2::rat) ^ 51 < 1" by simp
  have g0: "0 < gap" using assms(3) by (simp add: gap_def)
  have "2 * eps = 800 * (2 * of_int h + of_int w) / 2 ^ 51 * gap"
    using assms(3) by (simp add: eps_def gap_def r_def field_simps)
  also have "\<dots> < 1 * gap" using c1 g0 by (rule mult_strict_right_mono)
  finally have small: "2 * eps < gap" by simp
  have dpa: "dp = \<bar>of_int a / 400 - of_int w / of_int h\<bar>" by (simp add: dp_def a r_def)
  have dqb: "dq = \<bar>of_int b / 400 - of_int w / of_int h\<bar>" by (simp add: dq_def b r_def)
  have "Dq < Dp \<longleftrightarrow> dq < dp"
  proof (cases "dq < dp")
    case True
    with separation[OF assms(3), of b w a] have "dq + gap \<le> dp" by (simp add: dpa dqb gap_def)
    with ep eq small True show ?thesis by linarith
  next
    case False
    show ?thesis
    proof (cases "dp < dq")
      case True
      with separation[OF assms(3), of a w b] have "dp + gap \<le> dq" by (simp add: dpa dqb gap_def)
      with ep eq small False show ?thesis by linarith
    next
      case nlt: False
      with False have "dp = dq" by simp
      then have "r = (val (supported ! p) + val (supported ! q)) / 2"
        using mid_point[OF assms(3) ab, of w] by (simp add: dpa dqb a b r_def)
      then have "\<not> Dq < Dp" unfolding Dp_def Dq_def by (simp only: ties[OF assms(5,6)] not_False_eq_True)
      with False show ?thesis by simp
    qed
  qed
  then show ?thesis by (simp only: Dp_def Dq_def dp_def dq_def r_def)
qed

text \<open>The fold keeps the first entry at minimum computed distance.\<close>

lemma foldl_closer_first:
  "\<exists>i < length (x # xs).
      (\<forall>j < length (x # xs). distance q ((x # xs) ! i) \<le> distance q ((x # xs) ! j))
      \<and> (\<forall>j < i. distance q ((x # xs) ! i) < distance q ((x # xs) ! j))
      \<and> foldl (closer q) x xs = (x # xs) ! i"
proof (induction xs rule: rev_induct)
  case Nil
  show ?case by simp
next
  case (snoc y xs)
  define es where "es = x # xs"
  let ?d = "distance q"
  from snoc obtain i where i: "i < length es"
    and le: "\<forall>j < length es. ?d (es ! i) \<le> ?d (es ! j)"
    and lt: "\<forall>j < i. ?d (es ! i) < ?d (es ! j)"
    and r: "foldl (closer q) x xs = es ! i"
    unfolding es_def by blast
  have keep: "(es @ [y]) ! j = es ! j" if "j < length es" for j
    using that by (simp add: nth_append)
  have last: "(es @ [y]) ! length es = y" by simp
  have fold: "foldl (closer q) x (xs @ [y]) = closer q (es ! i) y"
    using r by (simp add: es_def)
  have cases: "j < length es \<or> j = length es" if "j < length (es @ [y])" for j
    using that by (simp add: less_Suc_eq)
  have app: "x # xs @ [y] = es @ [y]" by (simp add: es_def)
  show ?case
  proof (cases "?d y < ?d (es ! i)")
    case True
    have "length es < length (es @ [y])" by simp
    moreover have "\<forall>j < length (es @ [y]). ?d ((es @ [y]) ! length es) \<le> ?d ((es @ [y]) ! j)"
    proof (intro allI impI)
      fix j assume "j < length (es @ [y])"
      from cases[OF this] show "?d ((es @ [y]) ! length es) \<le> ?d ((es @ [y]) ! j)"
      proof
        assume j: "j < length es"
        show ?thesis using le[rule_format, OF j] True unfolding keep[OF j] last by linarith
      next
        assume "j = length es"
        then show ?thesis by simp
      qed
    qed
    moreover have "\<forall>j < length es. ?d ((es @ [y]) ! length es) < ?d ((es @ [y]) ! j)"
    proof (intro allI impI)
      fix j assume j: "j < length es"
      show "?d ((es @ [y]) ! length es) < ?d ((es @ [y]) ! j)"
        using le[rule_format, OF j] True unfolding keep[OF j] last by linarith
    qed
    moreover have "foldl (closer q) x (xs @ [y]) = (es @ [y]) ! length es"
      unfolding fold last using True by (simp add: closer_def)
    ultimately show ?thesis unfolding app by blast
  next
    case False
    have "i < length (es @ [y])" using i by simp
    moreover have "\<forall>j < length (es @ [y]). ?d ((es @ [y]) ! i) \<le> ?d ((es @ [y]) ! j)"
    proof (intro allI impI)
      fix j assume "j < length (es @ [y])"
      from cases[OF this] show "?d ((es @ [y]) ! i) \<le> ?d ((es @ [y]) ! j)"
      proof
        assume j: "j < length es"
        show ?thesis using le[rule_format, OF j] unfolding keep[OF j] keep[OF i] .
      next
        assume "j = length es"
        then show ?thesis unfolding keep[OF i] using False by simp
      qed
    qed
    moreover have "\<forall>j < i. ?d ((es @ [y]) ! i) < ?d ((es @ [y]) ! j)"
    proof (intro allI impI)
      fix j assume j: "j < i"
      then have jl: "j < length es" using i by simp
      show "?d ((es @ [y]) ! i) < ?d ((es @ [y]) ! j)"
        using lt[rule_format, OF j] unfolding keep[OF jl] keep[OF i] .
    qed
    moreover have "foldl (closer q) x (xs @ [y]) = (es @ [y]) ! i"
      unfolding fold keep[OF i] using False by (simp add: closer_def)
    ultimately show ?thesis unfolding app by blast
  qed
qed

lemma supported_nth:
  "supported ! 0 = \<lparr>str = ''1:1'', val = 1\<rparr>"
  "supported ! 1 = \<lparr>str = ''3:4'', val = 75 / 100\<rparr>"
  "supported ! 2 = \<lparr>str = ''4:3'', val = 133 / 100\<rparr>"
  "supported ! 3 = \<lparr>str = ''9:16'', val = 5625 / 10000\<rparr>"
  "supported ! 4 = \<lparr>str = ''16:9'', val = 177 / 100\<rparr>"
  "length supported = 5"
  by (simp_all add: supported_def)

lemma first_min_landscape:
  assumes fm: "first_min_at q supported i" and q: "1 < q"
  shows "i = 0 \<or> i = 2 \<or> i = 4"
proof -
  from fm have i: "i < 5"
    and lt: "\<And>j. j < i \<Longrightarrow> \<bar>val (supported ! i) - q\<bar> < \<bar>val (supported ! j) - q\<bar>"
    by (simp_all add: first_min_at_def supported_nth)
  have "i \<noteq> 1"
  proof
    assume "i = 1"
    with lt[of 0] have "\<bar>75 / 100 - q\<bar> < \<bar>1 - q\<bar>" by (simp add: supported_def)
    with q show False by linarith
  qed
  moreover have "i \<noteq> 3"
  proof
    assume "i = 3"
    with lt[of 0] have "\<bar>5625 / 10000 - q\<bar> < \<bar>1 - q\<bar>" by (simp add: supported_def)
    with q show False by linarith
  qed
  ultimately show ?thesis using i by linarith
qed

lemma first_min_square:
  assumes fm: "first_min_at 1 supported i"
  shows "i = 0"
proof (rule ccontr)
  assume "i \<noteq> 0"
  then have "0 < i" by simp
  with fm have lt: "\<bar>val (supported ! i) - 1\<bar> < \<bar>val (supported ! 0) - 1\<bar>"
    by (simp add: first_min_at_def)
  then show False by (simp add: supported_nth)
qed

lemma double_of_bound: "\<bar>double_of x\<bar> \<le> 2 * \<bar>x\<bar>"
proof -
  have "\<bar>x\<bar> / 2 ^ 53 \<le> \<bar>x\<bar>" by (simp add: divide_le_eq)
  with double_of_error[of x] show ?thesis by linarith
qed

text \<open>
  Claim C5, as amended. For positive integer width and height up to \<open>2 ^ 32\<close>,
  \<open>getClosestSupportedRatio\<close>, computing on doubles, returns the entry of the fixed list
  whose value is at minimum absolute distance from the exact width / height, and among
  entries at that same distance the earliest one. When width exceeds height the result is
  neither 3:4 nor 9:16, and when width equals height it is 1:1.
\<close>

theorem getClosestSupportedRatio_first_min:
  fixes w h :: int
  assumes "0 < w" and "w \<le> 2 ^ 32" and "0 < h" and "h \<le> 2 ^ 32"
  shows "\<exists>i. first_min_at (of_int w / of_int h) supported i
           \<and> getClosestSupportedRatio (of_int w) (of_int h) = str (supported ! i)
           \<and> (h < w \<longrightarrow> getClosestSupportedRatio (of_int w) (of_int h) \<noteq> ''3:4''
                         \<and> getClosestSupportedRatio (of_int w) (of_int h) \<noteq> ''9:16'')
           \<and> (w = h \<longrightarrow> getClosestSupportedRatio (of_int w) (of_int h) = ''1:1'')"
proof -
  define r :: rat where "r = of_int w / of_int h"
  have h0: "(of_int h :: rat) \<noteq> 0" using assms(3) by simp
  have "r \<le> of_int w" using assms(1,3) by (simp add: r_def divide_le_eq mult_le_cancel_left1)
  moreover have "(of_int w :: rat) \<le> of_int (2 ^ 32)" using assms(2) by (simp only: of_int_le_iff)
  moreover have "0 \<le> r" using assms(1,3) by (simp add: r_def)
  ultimately have "\<bar>r\<bar> \<le> 2 ^ 32" by simp
  with double_of_bound[of r] have "\<bar>double_of r\<bar> \<le> 2 ^ 33" by simp
  also have "(2::rat) ^ 33 < 2 ^ 1024" by (rule power_strict_increasing) simp_all
  finally have fin: "\<not> 2 ^ 1024 \<le> \<bar>double_of r\<bar>" by simp
  have ne: "supported = hd supported # tl supported" by (simp add: supported_def)
  have res: "getClosestSupportedRatio (of_int w) (of_int h)
               = str (foldl (closer (double_of r)) (hd supported) (tl supported))"
    using h0 fin by (simp add: getClosestSupportedRatio_def r_def)
  from foldl_closer_first[of "hd supported" "tl supported" "double_of r"]
  obtain i where i: "i < 5"
    and le: "\<forall>j < 5. distance (double_of r) (supported ! i) \<le> distance (double_of r) (supported ! j)"
    and lt: "\<forall>j < i. distance (double_of r) (supported ! i) < distance (double_of r) (supported ! j)"
    and f: "foldl (closer (double_of r)) (hd supported) (tl supported) = supported ! i"
    unfolding ne[symmetric] by (auto simp: supported_nth)
  have a: "first_min_at r supported i"
    unfolding first_min_at_def supported_nth
  proof (intro conjI allI impI)
    show "i < 5" by (rule i)
  next
    fix j :: nat assume j: "j < i"
    from lt[rule_format, OF j] compare_agrees[OF assms j i]
    show "\<bar>val (supported ! i) - r\<bar> < \<bar>val (supported ! j) - r\<bar>" by (simp add: r_def)
  next
    fix j :: nat assume j: "j < 5"
    consider "j < i" | "j = i" | "i < j" by linarith
    then show "\<bar>val (supported ! i) - r\<bar> \<le> \<bar>val (supported ! j) - r\<bar>"
    proof cases
      case 1
      from lt[rule_format, OF 1] compare_agrees[OF assms 1 i]
      show ?thesis by (simp add: r_def)
    next
      case 2
      then show ?thesis by simp
    next
      case 3
      from le[rule_format, OF j] compare_agrees[OF assms 3 j]
      show ?thesis by (simp add: r_def)
    qed
  qed
  have b: "getClosestSupportedRatio (of_int w) (of_int h) = str (supported ! i)"
    unfolding res f ..
  have c: "getClosestSupportedRatio (of_int w) (of_int h) \<noteq> ''3:4''
           \<and> getClosestSupportedRatio (of_int w) (of_int h) \<noteq> ''9:16''"
    if "h < w"
  proof -
    from that assms have "1 < r" by (simp add: r_def)
    from first_min_landscape[OF a this] show ?thesis
      unfolding b by (auto simp: supported_nth)
  qed
  have d: "getClosestSupportedRatio (of_int w) (of_int h) = ''1:1''" if "w = h"
  proof -
    from that assms have "r = 1" by (simp add: r_def)
    with a have "i = 0" using first_min_square by simp
    then show ?thesis unfolding b by (simp add: supported_nth)
  qed
  from a b c d show ?thesis unfolding r_def by blast
qed

theorem getClosestSupportedRatio_first_min_witness:
  "getClosestSupportedRatio 800 600 = ''4:3''
   \<and> getClosestSupportedRatio 800 600 \<noteq> ''3:4''
   \<and> getClosestSupportedRatio 800 600 \<noteq> ''9:16''
   \<and> (\<exists>i. first_min_at (800 / 600) supported i
          \<and> getClosestSupportedRatio 800 600 = str (supported ! i))"
proof -
  have w: "(0::int) < 800" "(800::int) \<le> 2 ^ 32" and h: "(0::int) < 600" "(600::int) \<le> 2 ^ 32"
    and hw: "(600::int) < 800" by simp_all
  from getClosestSupportedRatio_first_min[OF w h]
  obtain i where fm: "first_min_at (800 / 600) supported i"
    and r: "getClosestSupportedRatio 800 600 = str (supported ! i)"
    and l: "(600::int) < 800 \<longrightarrow> getClosestSupportedRatio 800 600 \<noteq> ''3:4''
                         \<and> getClosestSupportedRatio 800 600 \<noteq> ''9:16''"
    by (elim exE conjE) simp
  have v: "getClosestSupportedRatio 800 600 = ''4:3''" by code_simp
  from l[THEN mp, OF hw] have
    "getClosestSupportedRatio 800 600 \<noteq> ''3:4''" and "getClosestSupportedRatio 800 600 \<noteq> ''9:16''"
    by (rule conjunct1, rule conjunct2)
  moreover from fm r have "\<exists>i. first_min_at (800 / 600) supported i
          \<and> getClosestSupportedRatio 800 600 = str (supported ! i)" by (intro exI conjI)
  ultimately show ?thesis using v by (intro conjI)
qed

text \<open>The claim as stated, for every positive width and height, fails: at this size the
  quotient rounds to the double of 1.55, whose computed distances to 1.33 and to 1.77 are
  equal, so that 4:3, the earlier entry, stays, although the exact quotient is closer to
  1.77 than to 1.33.\<close>

theorem getClosestSupportedRatio_rounding_counterexample:
  "getClosestSupportedRatio 498759000024938 321780000016089 = ''4:3''
   \<and> \<bar>177 / 100 - 498759000024938 / 321780000016089\<bar>
       < \<bar>133 / 100 - (498759000024938 / 321780000016089 :: rat)\<bar>"
proof
  show "getClosestSupportedRatio 498759000024938 321780000016089 = ''4:3''" by code_simp
  show "\<bar>177 / 100 - 498759000024938 / 321780000016089\<bar>
       < \<bar>133 / 100 - (498759000024938 / 321780000016089 :: rat)\<bar>" by simp
qed

subsection \<open>Image compression\<close>

lemma math_round_upper: "of_int (math_round x) \<le> x + 1 / 2"
  unfolding math_round_def by (rule of_int_floor_le)

lemma math_round_lower: "x - 1 / 2 < of_int (math_round x)"
  unfolding math_round_def by linarith

lemma math_round_nonneg: "0 \<le> x \<Longrightarrow> 0 \<le> math_round x"
  unfolding math_round_def by simp

lemma math_round_le: "x \<le> of_int n \<Longrightarrow> math_round x \<le> n"
  unfolding math_round_def by linarith

text \<open>The scaled side: within half a pixel of the exact quotient and at most 1024.\<close>

lemma scaled_side:
  fixes a b :: nat
  assumes "a \<le> b" and "0 < b"
  defines "x \<equiv> (of_nat (a * MAX_SIZE) / of_nat b :: rat)"
  shows "nat (math_round x) \<le> MAX_SIZE"
    and "\<bar>of_nat (nat (math_round x)) - x\<bar> \<le> 1 / 2"
proof -
  have x0: "0 \<le> x" unfolding x_def by simp
  have "of_nat (a * MAX_SIZE) \<le> (of_nat (b * MAX_SIZE) :: rat)"
    using assms(1) by (simp only: of_nat_le_iff) simp
  then have "x \<le> of_nat MAX_SIZE"
    unfolding x_def using assms(2) by (simp add: divide_le_eq mult.commute)
  then have "x \<le> of_int (int MAX_SIZE)" by simp
  from math_round_le[OF this] show "nat (math_round x) \<le> MAX_SIZE" by simp
  have "of_nat (nat (math_round x)) = (of_int (math_round x) :: rat)"
    using math_round_nonneg[OF x0] by simp
  then show "\<bar>of_nat (nat (math_round x)) - x\<bar> \<le> 1 / 2"
    using math_round_upper[of x] math_round_lower[of x] by linarith
qed

lemma canvas_size_small:
  "w \<le> MAX_SIZE \<Longrightarrow> h \<le> MAX_SIZE \<Longrightarrow> canvas_size w h = (w, h)"
  by (simp add: canvas_size_def)

lemma canvas_size_wide:
  assumes "MAX_SIZE < w \<or> MAX_SIZE < h" and "h < w"
  shows "fst (canvas_size w h) = MAX_SIZE"
    and "snd (canvas_size w h) \<le> MAX_SIZE"
    and "\<bar>of_nat (snd (canvas_size w h)) - (of_nat (h * MAX_SIZE) / of_nat w :: rat)\<bar> \<le> 1 / 2"
proof -
  have cs: "canvas_size w h = (MAX_SIZE, nat (math_round (of_nat (h * MAX_SIZE) / of_nat w)))"
    using assms by (simp add: canvas_size_def)
  have hw: "h \<le> w" "0 < w" using assms(2) by simp_all
  show "fst (canvas_size w h) = MAX_SIZE" unfolding cs by simp
  show "snd (canvas_size w h) \<le> MAX_SIZE" unfolding cs snd_conv by (rule scaled_side(1)[OF hw])
  show "\<bar>of_nat (snd (canvas_size w h)) - (of_nat (h * MAX_SIZE) / of_nat w :: rat)\<bar> \<le> 1 / 2"
    unfolding cs snd_conv by (rule scaled_side(2)[OF hw])
qed

lemma canvas_size_tall:
  assumes "MAX_SIZE < w \<or> MAX_SIZE < h" and "\<not> h < w"
  shows "snd (canvas_size w h) = MAX_SIZE"
    and "fst (canvas_size w h) \<le> MAX_SIZE"
    and "\<bar>of_nat (fst (canvas_size w h)) - (of_nat (w * MAX_SIZE) / of_nat h :: rat)\<bar> \<le> 1 / 2"
proof -
  have cs: "canvas_size w h = (nat (math_round (of_nat (w * MAX_SIZE) / of_nat h)), MAX_SIZE)"
    using assms by (simp add: canvas_size_def)
  have wh: "w \<le> h" "0 < h" using assms by (auto simp: MAX_SIZE_def)
  show "snd (canvas_size w h) = MAX_SIZE" unfolding cs by simp
  show "fst (canvas_size w h) \<le> MAX_SIZE" unfolding cs fst_conv by (rule scaled_side(1)[OF wh])
  show "\<bar>of_nat (fst (canvas_size w h)) - (of_nat (w * MAX_SIZE) / of_nat h :: rat)\<bar> \<le> 1 / 2"
    unfolding cs fst_conv by (rule scaled_side(2)[OF wh])
qed

lemma compressImage_ok:
  assumes "decode br d m = Some (w, h)" and "context2d br"
  shows "compressImage br d m =
           Inr \<lparr>data = encodeJPEG br d m (fst (canvas_size w h)) (snd (canvas_size w h)),
                mimeType = ''image/jpeg'',
                canvas_width = fst (canvas_size w h), canvas_height = snd (canvas_size w h)\<rparr>"
  using assms by (simp add: compressImage_def split: prod.splits)

text \<open>
  Claim C6. When the image decodes (and the canvas gives a drawing context),
  \<open>compressImage\<close> returns the JPEG encoding of the image drawn on a canvas whose longer
  side is at most 1024, with mime type \<^verbatim>\<open>image/jpeg\<close> whatever the input mime type
  was. When a side of the input exceeds 1024, the longer side becomes 1024 and the other
  one is the exact proportional value rounded to an integer, so it is within half a pixel
  of it; otherwise the size is the input's.
\<close>

theorem compressImage_bounded_jpeg:
  assumes "decode br d m = Some (w, h)" and "context2d br"
  shows "\<exists>out. compressImage br d m = Inr out
           \<and> data out = encodeJPEG br d m (canvas_width out) (canvas_height out)
           \<and> mimeType out = ''image/jpeg''
           \<and> max (canvas_width out) (canvas_height out) \<le> 1024
           \<and> (1024 < w \<or> 1024 < h \<longrightarrow>
                (if h < w
                 then canvas_width out = 1024
                      \<and> \<bar>of_nat (canvas_height out) - (of_nat (h * 1024) / of_nat w :: rat)\<bar> \<le> 1 / 2
                 else canvas_height out = 1024
                      \<and> \<bar>of_nat (canvas_width out) - (of_nat (w * 1024) / of_nat h :: rat)\<bar> \<le> 1 / 2))
           \<and> (w \<le> 1024 \<and> h \<le> 1024 \<longrightarrow> canvas_width out = w \<and> canvas_height out = h)"
proof -
  let ?cw = "fst (canvas_size w h)" and ?ch = "snd (canvas_size w h)"
  have big: "max ?cw ?ch \<le> 1024"
  proof (cases "1024 < w \<or> 1024 < h")
    case False
    then show ?thesis by (simp add: canvas_size_def MAX_SIZE_def)
  next
    case True
    then have t: "MAX_SIZE < w \<or> MAX_SIZE < h" by (simp add: MAX_SIZE_def)
    show ?thesis
    proof (cases "h < w")
      case True
      from canvas_size_wide(1,2)[OF t True] show ?thesis by (simp add: MAX_SIZE_def)
    next
      case False
      from canvas_size_tall(1,2)[OF t False] show ?thesis by (simp add: MAX_SIZE_def)
    qed
  qed
  have scaled: "if h < w
                 then ?cw = 1024
                      \<and> \<bar>of_nat ?ch - (of_nat (h * 1024) / of_nat w :: rat)\<bar> \<le> 1 / 2
                 else ?ch = 1024
                      \<and> \<bar>of_nat ?cw - (of_nat (w * 1024) / of_nat h :: rat)\<bar> \<le> 1 / 2"
    if "1024 < w \<or> 1024 < h"
  proof -
    from that have t: "MAX_SIZE < w \<or> MAX_SIZE < h" by (simp add: MAX_SIZE_def)
    show ?thesis
    proof (cases "h < w")
      case True
      from canvas_size_wide(1,3)[OF t True] True show ?thesis by (simp add: MAX_SIZE_def)
    next
      case False
      from canvas_size_tall(1,3)[OF t False] False show ?thesis by (simp add: MAX_SIZE_def)
    qed
  qed
  have same: "?cw = w \<and> ?ch = h" if "w \<le> 1024 \<and> h \<le> 1024"
    using that by (simp add: canvas_size_small MAX_SIZE_def)
  define out where
    "out = \<lparr>data = encodeJPEG br d m ?cw ?ch, mimeType = ''image/jpeg'',
            canvas_width = ?cw, canvas_height = ?ch\<rparr>"
  have cw: "canvas_width out = ?cw" and ch: "canvas_height out = ?ch"
    by (simp_all add: out_def)
  show ?thesis
  proof (intro exI[of _ out] conjI)
    show "compressImage br d m = Inr out"
      unfolding out_def by (rule compressImage_ok[OF assms])
    show "data out = encodeJPEG br d m (canvas_width out) (canvas_height out)"
      by (simp add: out_def)
    show "mimeType out = ''image/jpeg''" by (simp add: out_def)
    show "max (canvas_width out) (canvas_height out) \<le> 1024"
      unfolding cw ch by (rule big)
    show "1024 < w \<or> 1024 < h \<longrightarrow>
            (if h < w
             then canvas_width out = 1024
                  \<and> \<bar>of_nat (canvas_height out) - (of_nat (h * 1024) / of_nat w :: rat)\<bar> \<le> 1 / 2
             else canvas_height out = 1024
                  \<and> \<bar>of_nat (canvas_width out) - (of_nat (w * 1024) / of_nat h :: rat)\<bar> \<le> 1 / 2)"
      unfolding cw ch using scaled by blast
    show "w \<le> 1024 \<and> h \<le> 1024 \<longrightarrow> canvas_width out = w \<and> canvas_height out = h"
      unfolding cw ch using same by blast
  qed
qed

lemma compressImage_4000_3000:
  "compressImage \<lparr>decode = (\<lambda>d m. Some (4000, 3000)), context2d = True,
                  encodeJPEG = (\<lambda>d m w h. ''jpeg'')\<rparr> ''png-bytes'' ''image/png''
     = Inr \<lparr>data = ''jpeg'', mimeType = ''image/jpeg'', canvas_width = 1024, canvas_height = 768\<rparr>"
proof -
  have "nat \<lfloor>1537 / 2 :: rat\<rfloor> = 768" by code_simp
  then show ?thesis
    by (simp add: compressImage_def canvas_size_def MAX_SIZE_def math_round_def)
qed

theorem compressImage_bounded_jpeg_witness:
  "\<exists>out. compressImage \<lparr>decode = (\<lambda>d m. Some (4000, 3000)), context2d = True,
                          encodeJPEG = (\<lambda>d m w h. ''jpeg-of-'' @ d)\<rparr> ''png'' ''image/png'' = Inr out
           \<and> data out = ''jpeg-of-png''
           \<and> mimeType out = ''image/jpeg''
           \<and> max (canvas_width out) (canvas_height out) \<le> 1024
           \<and> canvas_width out = 1024
           \<and> \<bar>of_nat (canvas_height out) - (768 :: rat)\<bar> \<le> 1 / 2"
proof -
  let ?br = "\<lparr>decode = (\<lambda>d m. Some (4000, 3000)), context2d = True,
              encodeJPEG = (\<lambda>d m w h. ''jpeg-of-'' @ d)\<rparr>"
  have d: "decode ?br ''png'' ''image/png'' = Some (4000, 3000)" by simp
  have c: "context2d ?br" by simp
  have big: "1024 < (4000::nat) \<or> 1024 < (3000::nat)" by simp
  from compressImage_bounded_jpeg[OF d c]
  obtain out where r: "compressImage ?br ''png'' ''image/png'' = Inr out"
    and e: "data out = encodeJPEG ?br ''png'' ''image/png'' (canvas_width out) (canvas_height out)"
    and m: "mimeType out = ''image/jpeg''"
    and b: "max (canvas_width out) (canvas_height out) \<le> 1024"
    and s: "1024 < (4000::nat) \<or> 1024 < (3000::nat) \<longrightarrow>
              (if (3000::nat) < 4000
               then canvas_width out = 1024
                    \<and> \<bar>of_nat (canvas_height out) - (of_nat (3000 * 1024) / of_nat 4000 :: rat)\<bar> \<le> 1 / 2
               else canvas_height out = 1024
                    \<and> \<bar>of_nat (canvas_width out) - (of_nat (4000 * 1024) / of_nat 3000 :: rat)\<bar> \<le> 1 / 2)"
    by (elim exE conjE)
  from e have e': "data out = ''jpeg-of-png''" by simp
  from s[THEN mp, OF big]
  have "canvas_width out = 1024" and "\<bar>of_nat (canvas_height out) - (768 :: rat)\<bar> \<le> 1 / 2"
    by simp_all
  with r e' m b show ?thesis by (intro exI[of _ out] conjI)
qed

text \<open>
  Claim C10. When the image decodes with both sides at most 1024 (and the canvas gives a
  drawing context), \<open>compressImage\<close> does not scale: the canvas keeps the input's width and
  height, and the result is the JPEG encoding on that canvas.
\<close>

theorem compressImage_no_upscale:
  assumes "decode br d m = Some (w, h)" and "context2d br"
    and "w \<le> 1024" and "h \<le> 1024"
  shows "compressImage br d m =
           Inr \<lparr>data = encodeJPEG br d m w h, mimeType = ''image/jpeg'',
                canvas_width = w, canvas_height = h\<rparr>"
  unfolding compressImage_ok[OF assms(1,2)]
  using assms(3,4) by (simp add: canvas_size_small MAX_SIZE_def)

theorem compressImage_no_upscale_witness:
  "compressImage \<lparr>decode = (\<lambda>d m. Some (800, 600)), context2d = True,
                  encodeJPEG = (\<lambda>d m w h. ''jpeg'')\<rparr> ''png-bytes'' ''image/png''
     = Inr \<lparr>data = ''jpeg'', mimeType = ''image/jpeg'', canvas_width = 800, canvas_height = 600\<rparr>"
  using compressImage_no_upscale[of "\<lparr>decode = (\<lambda>d m. Some (800, 600)), context2d = True,
                  encodeJPEG = (\<lambda>d m w h. ''jpeg'')\<rparr>" "''png-bytes''" "''image/png''" 800 600]
  by simp

subsection \<open>Retrying\<close>

lemmas retry_step = retry_loop.simps

declare retry_loop.simps [simp del]

lemma str_includes_iff: "str_includes s sub \<longleftrightarrow> (\<exists>p q. s = p @ sub @ q)"
proof (induction s)
  case Nil
  show ?case by auto
next
  case (Cons c cs)
  show ?case
  proof
    assume "str_includes (c # cs) sub"
    then consider "prefix sub (c # cs)" | "str_includes cs sub" by auto
    then show "\<exists>p q. c # cs = p @ sub @ q"
    proof cases
      case 1
      then obtain q where "c # cs = sub @ q" by (auto simp: prefix_def)
      then have "c # cs = [] @ sub @ q" by simp
      then show ?thesis by blast
    next
      case 2
      with Cons obtain p q where "cs = p @ sub @ q" by blast
      then have "c # cs = (c # p) @ sub @ q" by simp
      then show ?thesis by blast
    qed
  next
    assume "\<exists>p q. c # cs = p @ sub @ q"
    then obtain p q where pq: "c # cs = p @ sub @ q" by blast
    show "str_includes (c # cs) sub"
    proof (cases p)
      case Nil
      with pq have "prefix sub (c # cs)" by (simp add: prefix_def)
      then show ?thesis by simp
    next
      case (Cons a p')
      with pq have "cs = p' @ sub @ q" by simp
      with Cons.IH have "str_includes cs sub" by blast
      then show ?thesis by simp
    qed
  qed
qed

lemma retry_loop_success:
  assumes "i < retries" and "operation (world t) = (Inr v, s')"
  shows "retry_loop operation retries d i lastError t
           = (Inr v, t\<lparr>world := s', calls := calls t + 1\<rparr>)"
  using assms by (subst retry_step) (simp add: invoke_def)

lemma retry_loop_retry:
  assumes "i < retries - 1" and "operation (world t) = (Inl e, s')" and "isRateLimit e"
  shows "retry_loop operation retries d i lastError t
           = retry_loop operation retries d (i + 1) (Thrown e)
               (wait (d * 2 ^ nat i) (t\<lparr>world := s', calls := calls t + 1\<rparr>))"
  using assms by (subst retry_step) (simp add: invoke_def)

lemma retry_loop_rethrow:
  assumes "i < retries" and "operation (world t) = (Inl e, s')"
    and "\<not> (isRateLimit e \<and> i < retries - 1)"
  shows "retry_loop operation retries d i lastError t
           = (Inl (Thrown e), t\<lparr>world := s', calls := calls t + 1\<rparr>)"
  using assms by (subst retry_step) (auto simp: invoke_def)

lemma rate_limit_by_message:
  assumes "message e = Some m"
    and "str_includes m ''429'' \<or> str_includes m ''quota'' \<or> str_includes m ''RESOURCE_EXHAUSTED''"
  shows "isRateLimit e"
proof -
  from assms(2) have "m \<noteq> []" by auto
  with assms show ?thesis by (auto simp: isRateLimit_def)
qed

lemma rate_limit_by_status: "status e = Some 429 \<or> code e = Some 429 \<Longrightarrow> isRateLimit e"
  by (auto simp: isRateLimit_def Let_def)

text \<open>
  Claim C2. When the operation fails on its first two invocations with errors classified
  as rate limits and succeeds on the third, \<open>retryOperation\<close> with 3 attempts returns the
  third invocation's value, has invoked the operation exactly 3 times, and has waited the
  initial delay and then twice the initial delay (2000 and 4000 for the default delay).
\<close>

theorem retryOperation_third_attempt:
  assumes "operation (world t) = (Inl e1, s1)" and "isRateLimit e1"
    and "operation s1 = (Inl e2, s2)" and "isRateLimit e2"
    and "operation s2 = (Inr v, s3)"
  shows "retryOperation operation 3 initialDelay t
           = (Inr v, \<lparr>world = s3, calls = calls t + 3,
                      slept = slept t @ [initialDelay, 2 * initialDelay]\<rparr>)"
proof -
  define t1 where "t1 = wait (initialDelay * 2 ^ nat 0) (t\<lparr>world := s1, calls := calls t + 1\<rparr>)"
  define t2 where "t2 = wait (initialDelay * 2 ^ nat 1) (t1\<lparr>world := s2, calls := calls t1 + 1\<rparr>)"
  have w1: "world t1 = s1" and w2: "world t2 = s2"
    by (simp_all add: t1_def t2_def wait_def)
  have "retryOperation operation 3 initialDelay t
          = retry_loop operation 3 initialDelay (0 + 1) (Thrown e1) t1"
    unfolding retryOperation_def t1_def
    using retry_loop_retry[of 0 3 operation t e1 s1] assms(1,2) by simp
  also have "\<dots> = retry_loop operation 3 initialDelay (1 + 1) (Thrown e2) t2"
    unfolding t2_def using retry_loop_retry[of 1 3 operation t1 e2 s2] assms(3,4) w1
    by simp
  also have "\<dots> = (Inr v, t2\<lparr>world := s3, calls := calls t2 + 1\<rparr>)"
    using retry_loop_success[of 2 3 operation t2 v s3] assms(5) w2 by simp
  also have "t2\<lparr>world := s3, calls := calls t2 + 1\<rparr>
               = \<lparr>world = s3, calls = calls t + 3,
                  slept = slept t @ [initialDelay, 2 * initialDelay]\<rparr>"
    by (simp add: t1_def t2_def wait_def)
  finally show ?thesis .
qed

theorem retryOperation_third_attempt_witness:
  "retryOperation
     (\<lambda>n::nat. if n < 2 then (Inl (Error ''429 Too Many Requests''), n + 1)
               else (Inr ''ok'', n + 1))
     3 2000 \<lparr>world = 0, calls = 0, slept = []\<rparr>
   = (Inr ''ok'', \<lparr>world = 3, calls = 3, slept = [2000, 4000]\<rparr>)"
proof -
  let ?op = "\<lambda>n::nat. if n < 2 then (Inl (Error ''429 Too Many Requests''), n + 1)
               else (Inr ''ok'', n + 1) :: (jserror + string) \<times> nat"
  let ?t = "\<lparr>world = 0::nat, calls = 0, slept = []\<rparr>"
  have rl: "isRateLimit (Error ''429 Too Many Requests'')"
    by (simp add: isRateLimit_def Error_def)
  have a: "?op (world ?t) = (Inl (Error ''429 Too Many Requests''), 1)" by simp
  have b: "?op 1 = (Inl (Error ''429 Too Many Requests''), 2)" by simp
  have c: "?op 2 = (Inr ''ok'', 3)" by simp
  from retryOperation_third_attempt[of ?op ?t, OF a rl b rl c, of 2000]
  show ?thesis by simp
qed

text \<open>
  Claim C3. When the first invocation of the operation fails with an error that is not
  classified as a rate limit, \<open>retryOperation\<close> (with at least one attempt allowed, as with
  the default of 3) throws that same error after exactly one invocation and no delay.
\<close>

theorem retryOperation_rethrows_at_once:
  assumes "operation (world t) = (Inl e, s1)" and "\<not> isRateLimit e" and "0 < retries"
  shows "retryOperation operation retries initialDelay t
           = (Inl (Thrown e), \<lparr>world = s1, calls = calls t + 1, slept = slept t\<rparr>)"
proof -
  have "retryOperation operation retries initialDelay t
          = (Inl (Thrown e), t\<lparr>world := s1, calls := calls t + 1\<rparr>)"
    unfolding retryOperation_def
    using assms by (intro retry_loop_rethrow) simp_all
  then show ?thesis by simp
qed

theorem retryOperation_rethrows_at_once_witness:
  "retryOperation (\<lambda>n::nat. (Inl (Error ''boom''), n + 1) :: (jserror + string) \<times> nat)
     3 2000 \<lparr>world = 0, calls = 0, slept = []\<rparr>
   = (Inl (Thrown (Error ''boom'')), \<lparr>world = 1, calls = 1, slept = []\<rparr>)"
proof -
  let ?op = "\<lambda>n::nat. (Inl (Error ''boom''), n + 1) :: (jserror + string) \<times> nat"
  let ?t = "\<lparr>world = 0::nat, calls = 0, slept = []\<rparr>"
  have nrl: "\<not> isRateLimit (Error ''boom'')"
    by (simp add: isRateLimit_def Error_def)
  have a: "?op (world ?t) = (Inl (Error ''boom''), 1)" by simp
  from retryOperation_rethrows_at_once[of ?op ?t, OF a nrl, of 3 2000]
  show ?thesis by simp
qed

subsection \<open>Feature extraction\<close>

lemma extractFeatureDescription_no_key:
  "\<not> truthy_str apiKey \<Longrightarrow>
   extractFeatureDescription ai br apiKey img mode customPrompt t
     = (Inl (Thrown (Error ''API Key not found in environment variables.'')), t)"
  by (simp add: extractFeatureDescription_def)

lemma extractFeatureDescription_compress_fails:
  assumes "truthy_str apiKey" and "compressImage br (data img) (mimeType img) = Inl e"
  shows "extractFeatureDescription ai br apiKey img mode customPrompt t = (Inl (Thrown e), t)"
  using assms by (simp add: extractFeatureDescription_def)

lemma extractFeatureDescription_compressed:
  assumes "truthy_str apiKey" and "compressImage br (data img) (mimeType img) = Inr p"
  shows "fst (extractFeatureDescription ai br apiKey img mode customPrompt t) =
           (case fst (retryOperation
                        (call_content ai
                           (GenerateContent ''gemini-2.5-flash''
                              [InlineData (data p) (mimeType p),
                               Text (promptText mode customPrompt)] None))
                        3 2000 t) of
              Inl thrown \<Rightarrow> Inr []
            | Inr response \<Rightarrow>
                Inr (case response_text response of Some txt \<Rightarrow> txt | None \<Rightarrow> []))"
  using assms
  by (simp add: extractFeatureDescription_def split: prod.splits sum.splits option.splits)

lemma extractFeatureDescription_run:
  assumes "truthy_str apiKey" and "compressImage br (data img) (mimeType img) = Inr p"
    and "retryOperation
           (call_content ai
              (GenerateContent ''gemini-2.5-flash''
                 [InlineData (data p) (mimeType p), Text (promptText mode customPrompt)] None))
           3 2000 t = (res, t')"
  shows "extractFeatureDescription ai br apiKey img mode customPrompt t =
           (case res of
              Inl thrown \<Rightarrow> (Inr [], t')
            | Inr response \<Rightarrow>
                (Inr (case response_text response of Some txt \<Rightarrow> txt | None \<Rightarrow> []), t'))"
  using assms
  by (simp add: extractFeatureDescription_def split: sum.splits option.splits)

text \<open>
  Claim C1, as amended. Without a credential \<open>extractFeatureDescription\<close> throws the
  credential error and sends nothing. With the credential, a failure of the image
  compression propagates as well: it is raised before the \<^verbatim>\<open>try\<close> block. Once the image
  is compressed, the one analysis request goes through the retry wrapper, and
  \<open>extractFeatureDescription\<close> never throws: it returns the empty string when the retried
  call fails, and the response text (the empty string when there is none) when it
  succeeds.
\<close>

theorem extractFeatureDescription_absorbs_remote_failure:
  "(\<not> truthy_str apiKey \<longrightarrow>
      extractFeatureDescription ai br apiKey img mode customPrompt t
        = (Inl (Thrown (Error ''API Key not found in environment variables.'')), t))
   \<and> (truthy_str apiKey \<longrightarrow>
        (case compressImage br (data img) (mimeType img) of
           Inl e \<Rightarrow>
             extractFeatureDescription ai br apiKey img mode customPrompt t = (Inl (Thrown e), t)
         | Inr p \<Rightarrow>
             (case retryOperation
                     (call_content ai
                        (GenerateContent ''gemini-2.5-flash''
                           [InlineData (data p) (mimeType p),
                            Text (promptText mode customPrompt)] None))
                     3 2000 t of
                (Inl thrown, t') \<Rightarrow>
                   extractFeatureDescription ai br apiKey img mode customPrompt t = (Inr [], t')
              | (Inr response, t') \<Rightarrow>
                   extractFeatureDescription ai br apiKey img mode customPrompt t
                     = (Inr (case response_text response of Some txt \<Rightarrow> txt | None \<Rightarrow> []),
                        t'))))"
proof (intro conjI impI)
  assume "\<not> truthy_str apiKey"
  then show "extractFeatureDescription ai br apiKey img mode customPrompt t
        = (Inl (Thrown (Error ''API Key not found in environment variables.'')), t)"
    by (rule extractFeatureDescription_no_key)
next
  assume k: "truthy_str apiKey"
  show "case compressImage br (data img) (mimeType img) of
           Inl e \<Rightarrow>
             extractFeatureDescription ai br apiKey img mode customPrompt t = (Inl (Thrown e), t)
         | Inr p \<Rightarrow>
             (case retryOperation
                     (call_content ai
                        (GenerateContent ''gemini-2.5-flash''
                           [InlineData (data p) (mimeType p),
                            Text (promptText mode customPrompt)] None))
                     3 2000 t of
                (Inl thrown, t') \<Rightarrow>
                   extractFeatureDescription ai br apiKey img mode customPrompt t = (Inr [], t')
              | (Inr response, t') \<Rightarrow>
                   extractFeatureDescription ai br apiKey img mode customPrompt t
                     = (Inr (case response_text response of Some txt \<Rightarrow> txt | None \<Rightarrow> []),
                        t'))"
  proof (cases "compressImage br (data img) (mimeType img)")
    case (Inl e)
    show ?thesis
      unfolding Inl sum.case by (rule extractFeatureDescription_compress_fails[OF k Inl])
  next
    case (Inr p)
    obtain res t' where run: "retryOperation
           (call_content ai
              (GenerateContent ''gemini-2.5-flash''
                 [InlineData (data p) (mimeType p), Text (promptText mode customPrompt)] None))
           3 2000 t = (res, t')"
      by (cases "retryOperation
           (call_content ai
              (GenerateContent ''gemini-2.5-flash''
                 [InlineData (data p) (mimeType p), Text (promptText mode customPrompt)] None))
           3 2000 t")
    show ?thesis
      unfolding Inr sum.case run prod.case extractFeatureDescription_run[OF k Inr run]
      by (cases res) simp_all
  qed
qed

lemma example_compress_ref:
  "compressImage example_browser (data reference_unsized) (mimeType reference_unsized)
     = Inr \<lparr>data = ''jpeg-of-ref'', mimeType = ''image/jpeg'',
            canvas_width = 800, canvas_height = 600\<rparr>"
  by (simp add: compressImage_def example_browser_def reference_unsized_def canvas_size_def
        MAX_SIZE_def)

lemma failing_analysis:
  "fst (retryOperation (call_content failing_sdk req) 3 2000 start)
     = Inl (Thrown (Error ''500 Internal''))"
proof -
  have nrl: "\<not> isRateLimit (Error ''500 Internal'')"
    by (simp add: isRateLimit_def Error_def)
  have "call_content failing_sdk req (world start)
          = (Inl (Error ''500 Internal''), \<lparr>remote = 1, sent = [req]\<rparr>)"
    by (simp add: call_content_def failing_sdk_def start_def)
  then have "retry_loop (call_content failing_sdk req) 3 2000 0 Undefined start
          = (Inl (Thrown (Error ''500 Internal'')),
             start\<lparr>world := \<lparr>remote = 1, sent = [req]\<rparr>, calls := calls start + 1\<rparr>)"
    using nrl by (intro retry_loop_rethrow) simp_all
  then show ?thesis by (simp add: retryOperation_def)
qed

lemma example_analysis:
  "retryOperation (call_content example_sdk (GenerateContent m ps None)) 3 2000 start
     = (Inr \<lparr>candidates = None, response_text = Some ''a red coat''\<rparr>,
        \<lparr>world = \<lparr>remote = 1, sent = [GenerateContent m ps None]\<rparr>, calls = 1, slept = []\<rparr>)"
proof -
  have "call_content example_sdk (GenerateContent m ps None) (world start)
          = (Inr \<lparr>candidates = None, response_text = Some ''a red coat''\<rparr>,
             \<lparr>remote = 1, sent = [GenerateContent m ps None]\<rparr>)"
    by (simp add: call_content_def example_sdk_def start_def)
  then have "retry_loop (call_content example_sdk (GenerateContent m ps None)) 3 2000 0 Undefined start
          = (Inr \<lparr>candidates = None, response_text = Some ''a red coat''\<rparr>,
             start\<lparr>world := \<lparr>remote = 1, sent = [GenerateContent m ps None]\<rparr>,
                    calls := calls start + 1\<rparr>)"
    by (intro retry_loop_success) simp_all
  then show ?thesis by (simp add: retryOperation_def start_def)
qed

theorem extractFeatureDescription_absorbs_remote_failure_witness:
  "fst (extractFeatureDescription failing_sdk example_browser (Some ''key'')
          reference_unsized DRESS None start) = Inr []
   \<and> fst (extractFeatureDescription example_sdk example_browser (Some ''key'')
          reference_unsized DRESS None start) = Inr ''a red coat''
   \<and> extractFeatureDescription example_sdk example_browser None
          reference_unsized DRESS None start
        = (Inl (Thrown (Error ''API Key not found in environment variables.'')), start)"
proof (intro conjI)
  have k: "truthy_str (Some ''key'')" by simp
  note f = extractFeatureDescription_absorbs_remote_failure[where br = example_browser
         and img = reference_unsized and ai = failing_sdk and mode = DRESS
         and customPrompt = None and t = start and apiKey = "Some ''key''",
         THEN conjunct2, THEN mp, OF k]
  obtain res t' where run: "retryOperation
           (call_content failing_sdk
              (GenerateContent ''gemini-2.5-flash''
                 [InlineData ''jpeg-of-ref'' ''image/jpeg'', Text (promptText DRESS None)] None))
           3 2000 start = (res, t')"
    by (cases "retryOperation
           (call_content failing_sdk
              (GenerateContent ''gemini-2.5-flash''
                 [InlineData ''jpeg-of-ref'' ''image/jpeg'', Text (promptText DRESS None)] None))
           3 2000 start")
  from failing_analysis[of "GenerateContent ''gemini-2.5-flash''
                 [InlineData ''jpeg-of-ref'' ''image/jpeg'', Text (promptText DRESS None)] None"]
  have res: "res = Inl (Thrown (Error ''500 Internal''))" unfolding run by simp
  from f show "fst (extractFeatureDescription failing_sdk example_browser (Some ''key'')
          reference_unsized DRESS None start) = Inr []"
    unfolding example_compress_ref sum.case using run res by simp
next
  have k: "truthy_str (Some ''key'')" by simp
  note f = extractFeatureDescription_absorbs_remote_failure[where br = example_browser
         and img = reference_unsized and ai = example_sdk and mode = DRESS
         and customPrompt = None and t = start and apiKey = "Some ''key''",
         THEN conjunct2, THEN mp, OF k]
  from f show "fst (extractFeatureDescription example_sdk example_browser (Some ''key'')
          reference_unsized DRESS None start) = Inr ''a red coat''"
    unfolding example_compress_ref sum.case using example_analysis by simp
next
  have nk: "\<not> truthy_str None" by simp
  from extractFeatureDescription_absorbs_remote_failure[where apiKey = None,
         THEN conjunct1, THEN mp, OF nk]
  show "extractFeatureDescription example_sdk example_browser None
          reference_unsized DRESS None start
        = (Inl (Thrown (Error ''API Key not found in environment variables.'')), start)" .
qed

text \<open>The claim as stated fails: an image that does not decode makes
  \<open>extractFeatureDescription\<close> throw, although the credential is present.\<close>

theorem extractFeatureDescription_compression_failure_propagates:
  "fst (extractFeatureDescription failing_sdk example_browser (Some ''key'')
          undecodable POSE None start)
     = Inl (Thrown (Error ''Failed to process image''))"
  by (simp add: extractFeatureDescription_def compressImage_def example_browser_def
        undecodable_def)

subsection \<open>The texts of the custom mode\<close>

lemma feature_nonempty: "feature config \<noteq> []"
  by (simp add: feature_def split: option.splits)

lemma feature_fallback:
  "\<not> truthy_str (customReferencePrompt config) \<Longrightarrow> feature config = ''feature''"
  by (cases "customReferencePrompt config") (simp_all add: feature_def)

lemma feature_given:
  "truthy_str (customReferencePrompt config) \<Longrightarrow> customReferencePrompt config = Some (feature config)"
  by (cases "customReferencePrompt config") (simp_all add: feature_def)

lemma promptText_custom_fallback:
  "\<not> truthy_str customPrompt \<Longrightarrow>
   promptText CUSTOM customPrompt = ''Describe the key distinctive visual attributes of this image.''"
  by (cases customPrompt) simp_all

lemma str_includes_mid: "str_includes (p @ s @ q) s"
  unfolding str_includes_iff by blast

lemma instruction_includes_directive:
  "str_includes (instruction True guidance config) (modeDirective (referenceMode config) config)"
proof -
  obtain p q where "instruction True guidance config
      = p @ modeDirective (referenceMode config) config @ q"
    unfolding instruction_def if_True
    by (metis append.assoc)
  then show ?thesis by (simp add: str_includes_mid)
qed

subsection \<open>Interpreting the edit response\<close>

lemma generateFutureImage_edit:
  assumes "truthy_str apiKey" and "modelId config \<noteq> Some IMAGEN_4"
  shows "generateFutureImage ai br apiKey sourceImage referenceImage config t
           = editPath ai br apiKey sourceImage referenceImage config
               (case modelId config of Some m \<Rightarrow> m | None \<Rightarrow> GEMINI_2_5)
               (targetRatio sourceImage config) t"
  using assms by (auto simp: generateFutureImage_def Let_def split: option.splits)

lemma generateFutureImage_imagen:
  assumes "truthy_str apiKey" and "modelId config = Some IMAGEN_4"
  shows "generateFutureImage ai br apiKey sourceImage referenceImage config t
           = imagenPath ai config (targetRatio sourceImage config) t"
  using assms by (simp add: generateFutureImage_def)

lemma editPath_outcome:
  assumes "guidanceDescription ai br apiKey referenceImage config t = (g, t1)"
    and "compressImage br (data sourceImage) (mimeType sourceImage) = Inr ps"
    and "compressRef br referenceImage = Inr pr"
  shows "editPath ai br apiKey sourceImage referenceImage config model ratio t
           = (editOutcome (fst (retryOperation
                                  (call_content ai (editRequest model ratio ps pr g config))
                                  3 2000 t1)),
              snd (retryOperation
                     (call_content ai (editRequest model ratio ps pr g config)) 3 2000 t1))"
  using assms by (simp add: editPath_def split: prod.splits)

lemma first_inline_none: "(\<forall>p \<in> set ps. p = OtherPart) \<Longrightarrow> first_inline ps = None"
  by (induction ps rule: first_inline.induct) simp_all

lemma rewrap_Error: "m \<noteq> [] \<Longrightarrow> rewrap (Error m) = Error m"
  by (simp add: rewrap_def Error_def)

lemma editOutcome_no_candidate:
  "candidates response = None \<or> candidates response = Some [] \<Longrightarrow>
   editOutcome (Inr response) = Inl (Error ''No response from AI model.'')"
  by (auto simp: interpretResponse_def first_candidate_def rewrap_Error)

lemma editOutcome_blocked:
  assumes "candidates response = Some (cand # rest)" and "finishReason cand = Some reason"
    and "reason \<noteq> []" and "reason \<noteq> ''STOP''"
  shows "editOutcome (Inr response) =
           Inl (Error (if reason = ''RECITATION'' \<or> reason = ''IMAGE_RECITATION'' \<or> reason = ''SAFETY''
                       then ''Generation blocked: The request was flagged for '' @ reason
                            @ '' (likely too close to a protected image or person). Try a different reference.''
                       else ''Generation blocked by filter: '' @ reason))"
  using assms by (simp add: interpretResponse_def first_candidate_def rewrap_Error)

lemma image_of_text_only:
  assumes "case content_parts cand of None \<Rightarrow> True | Some parts \<Rightarrow> \<forall>p \<in> set parts. p = OtherPart"
  shows "image_of cand = Inl (Error ''The model generated a text response instead of an image. Please try adjusting your prompt.'')"
  using assms by (auto simp: image_of_def first_inline_none split: option.splits)

lemma editOutcome_text_only:
  assumes "candidates response = Some (cand # rest)"
    and "finishReason cand = None \<or> finishReason cand = Some [] \<or> finishReason cand = Some ''STOP''"
    and "case content_parts cand of None \<Rightarrow> True | Some parts \<Rightarrow> \<forall>p \<in> set parts. p = OtherPart"
  shows "editOutcome (Inr response) =
           Inl (Error ''The model generated a text response instead of an image. Please try adjusting your prompt.'')"
proof -
  have "interpretResponse response = image_of cand"
    using assms(1,2) by (auto simp: interpretResponse_def first_candidate_def)
  then show ?thesis
    using image_of_text_only[OF assms(3)] by (simp add: rewrap_Error)
qed

text \<open>
  Claim C8. Let the editing path reach its remote call (credential present, an editing
  model, images compressed) and let that call, through the retry wrapper, give a
  response. Then \<open>generateFutureImage\<close> fails as follows. With no candidate the message is
  "No response from AI model.". When the first candidate has a finish reason (a non-empty
  string) other than STOP, the message names that reason and suggests a different
  reference for RECITATION, IMAGE_RECITATION and SAFETY, and is "Generation blocked by
  filter: " followed by the reason for any other. When the first candidate finished
  normally and no part of it has inline data, the message says that the model generated
  text instead of an image.
\<close>

theorem edit_response_failures:
  assumes "truthy_str apiKey" and "modelId config \<noteq> Some IMAGEN_4"
    and "guidanceDescription ai br apiKey referenceImage config t = (g, t1)"
    and "compressImage br (data sourceImage) (mimeType sourceImage) = Inr ps"
    and "compressRef br referenceImage = Inr pr"
    and "fst (retryOperation
                (call_content ai
                   (editRequest (case modelId config of Some m \<Rightarrow> m | None \<Rightarrow> GEMINI_2_5)
                      (targetRatio sourceImage config) ps pr g config))
                3 2000 t1) = Inr response"
  shows "(candidates response = None \<or> candidates response = Some [] \<longrightarrow>
            fst (generateFutureImage ai br apiKey sourceImage referenceImage config t)
              = Inl (Error ''No response from AI model.''))
       \<and> (\<forall>cand rest reason.
            candidates response = Some (cand # rest) \<and> finishReason cand = Some reason
            \<and> reason \<noteq> [] \<and> reason \<noteq> ''STOP'' \<longrightarrow>
            fst (generateFutureImage ai br apiKey sourceImage referenceImage config t)
              = Inl (Error (if reason = ''RECITATION'' \<or> reason = ''IMAGE_RECITATION''
                               \<or> reason = ''SAFETY''
                            then ''Generation blocked: The request was flagged for '' @ reason
                                 @ '' (likely too close to a protected image or person). Try a different reference.''
                            else ''Generation blocked by filter: '' @ reason)))
       \<and> (\<forall>cand rest.
            candidates response = Some (cand # rest)
            \<and> (finishReason cand = None \<or> finishReason cand = Some []
                 \<or> finishReason cand = Some ''STOP'')
            \<and> (case content_parts cand of
                  None \<Rightarrow> True
                | Some parts \<Rightarrow> \<forall>p \<in> set parts. p = OtherPart) \<longrightarrow>
            fst (generateFutureImage ai br apiKey sourceImage referenceImage config t)
              = Inl (Error ''The model generated a text response instead of an image. Please try adjusting your prompt.''))"
proof -
  have res: "fst (generateFutureImage ai br apiKey sourceImage referenceImage config t)
               = editOutcome (Inr response)"
    unfolding generateFutureImage_edit[OF assms(1,2)]
      editPath_outcome[OF assms(3,4,5)] fst_conv assms(6) ..
  show ?thesis
    unfolding res
    using editOutcome_no_candidate[of response] editOutcome_blocked[of response]
      editOutcome_text_only[of response]
    by blast
qed

lemma example_compress_source:
  "compressImage example_browser (data source_800_600) (mimeType source_800_600)
     = Inr \<lparr>data = ''jpeg-of-src'', mimeType = ''image/jpeg'',
            canvas_width = 800, canvas_height = 600\<rparr>"
  by (simp add: compressImage_def example_browser_def source_800_600_def canvas_size_def
        MAX_SIZE_def)

lemma blocking_answer:
  "fst (retryOperation (call_content blocking_sdk req) 3 2000 start)
     = Inr \<lparr>candidates = Some [\<lparr>finishReason = Some ''SAFETY'', content_parts = None\<rparr>],
            response_text = None\<rparr>"
proof -
  have "call_content blocking_sdk req (world start)
          = (Inr \<lparr>candidates = Some [\<lparr>finishReason = Some ''SAFETY'', content_parts = None\<rparr>],
                  response_text = None\<rparr>, \<lparr>remote = 1, sent = [req]\<rparr>)"
    by (simp add: call_content_def blocking_sdk_def start_def)
  then have "retry_loop (call_content blocking_sdk req) 3 2000 0 Undefined start
          = (Inr \<lparr>candidates = Some [\<lparr>finishReason = Some ''SAFETY'', content_parts = None\<rparr>],
                  response_text = None\<rparr>,
             start\<lparr>world := \<lparr>remote = 1, sent = [req]\<rparr>, calls := calls start + 1\<rparr>)"
    by (intro retry_loop_success) simp_all
  then show ?thesis by (simp add: retryOperation_def)
qed

theorem edit_response_failures_witness:
  "fst (generateFutureImage blocking_sdk example_browser (Some ''key'') source_800_600 None
          \<lparr>prompt = ''add sunglasses'', aspectRatio = SAME_AS_SOURCE, referenceMode = None,
           customReferencePrompt = None, modelId = None\<rparr> start)
     = Inl (Error ''Generation blocked: The request was flagged for SAFETY (likely too close to a protected image or person). Try a different reference.'')"
proof -
  let ?cfg = "\<lparr>prompt = ''add sunglasses'', aspectRatio = SAME_AS_SOURCE, referenceMode = None,
           customReferencePrompt = None, modelId = None\<rparr>"
  let ?cand = "\<lparr>finishReason = Some ''SAFETY'', content_parts = None\<rparr>"
  let ?resp = "\<lparr>candidates = Some [?cand], response_text = None\<rparr>"
  have k: "truthy_str (Some ''key'')" by simp
  have m: "modelId ?cfg \<noteq> Some IMAGEN_4" by simp
  have g: "guidanceDescription blocking_sdk example_browser (Some ''key'') None ?cfg start
             = ([], start)"
    by (simp add: guidanceDescription_def)
  have cr: "compressRef example_browser None = Inr None" by (simp add: compressRef_def)
  note inst = edit_response_failures[OF k m g example_compress_source cr blocking_answer]
  note blocked = inst[THEN conjunct2, THEN conjunct1, rule_format, of ?cand "[]" "''SAFETY''"]
  have "candidates ?resp = Some [?cand] \<and> finishReason ?cand = Some ''SAFETY''
          \<and> ''SAFETY'' \<noteq> [] \<and> ''SAFETY'' \<noteq> ''STOP''" by simp
  from blocked[OF this] show ?thesis by simp
qed

subsection \<open>The requests sent\<close>

lemma call_content_sent: "sent (snd (call_content ai req n)) = sent n @ [req]"
  by (simp add: call_content_def split: prod.splits)

lemma call_images_sent: "sent (snd (call_images ai req n)) = sent n @ [req]"
  by (simp add: call_images_def split: prod.splits)

lemma invoke_sent:
  assumes "\<And>n. sent (snd (operation n)) = sent n @ [req]"
    and "invoke operation t = (res, t')"
  shows "sent (world t') = sent (world t) @ [req]"
  using assms(2) assms(1)[of "world t"] by (auto simp: invoke_def split: prod.splits)

lemma retry_loop_sent:
  assumes "\<And>n. sent (snd (operation n)) = sent n @ [req]"
  shows "\<exists>k. sent (world (snd (retry_loop operation retries d i lastError t)))
              = sent (world t) @ replicate k req"
  using assms
proof (induction operation retries d i lastError t rule: retry_loop.induct)
  case (1 operation retries d i lastError t)
  show ?case
  proof (cases "i < retries")
    case False
    then have "retry_loop operation retries d i lastError t = (Inl lastError, t)"
      by (subst retry_step) simp
    then show ?thesis by (intro exI[of _ 0]) simp
  next
    case True
    obtain res t' where inv: "invoke operation t = (res, t')"
      by (cases "invoke operation t")
    note st' = invoke_sent[of operation req, OF "1.prems" inv]
    show ?thesis
    proof (cases res)
      case (Inr v)
      then have "retry_loop operation retries d i lastError t = (Inr v, t')"
        using True inv by (subst retry_step) simp
      then show ?thesis using st' by (intro exI[of _ 1]) simp
    next
      case (Inl e)
      show ?thesis
      proof (cases "isRateLimit e \<and> i < retries - 1")
        case False
        then have "retry_loop operation retries d i lastError t = (Inl (Thrown e), t')"
          using True inv Inl by (subst retry_step) auto
        then show ?thesis using st' by (intro exI[of _ 1]) simp
      next
        case rl: True
        have eq: "retry_loop operation retries d i lastError t
                    = retry_loop operation retries d (i + 1) (Thrown e) (wait (d * 2 ^ nat i) t')"
          using True inv Inl rl by (subst retry_step) simp
        have "\<exists>k. sent (world (snd (retry_loop operation retries d (i + 1) (Thrown e)
                                         (wait (d * 2 ^ nat i) t'))))
                     = sent (world (wait (d * 2 ^ nat i) t')) @ replicate k req"
          using "1.IH"[OF True inv[symmetric] Inl rl] "1.prems" by blast
        then obtain k where
          "sent (world (snd (retry_loop operation retries d (i + 1) (Thrown e)
                                         (wait (d * 2 ^ nat i) t'))))
             = sent (world (wait (d * 2 ^ nat i) t')) @ replicate k req" ..
        then show ?thesis
          unfolding eq using st' by (intro exI[of _ "Suc k"]) (simp add: wait_def)
      qed
    qed
  qed
qed

lemma retryOperation_sent:
  assumes "\<And>n. sent (snd (operation n)) = sent n @ [req]"
  shows "\<exists>k. sent (world (snd (retryOperation operation retries d t)))
              = sent (world t) @ replicate k req"
  unfolding retryOperation_def using assms by (rule retry_loop_sent)

text \<open>The analysis requests: the compressed image and the question of the mode.\<close>

lemma extractFeatureDescription_requests:
  "\<exists>new. sent (world (snd (extractFeatureDescription ai br apiKey img mode customPrompt t)))
            = sent (world t) @ new
         \<and> (\<forall>r \<in> set new. \<exists>p :: compressed. r = GenerateContent ''gemini-2.5-flash''
                                      [InlineData (data p) (mimeType p),
                                       Text (promptText mode customPrompt)] None)"
proof (cases "truthy_str apiKey")
  case False
  then show ?thesis by (intro exI[of _ "[]"]) (simp add: extractFeatureDescription_no_key)
next
  case True
  show ?thesis
  proof (cases "compressImage br (data img) (mimeType img)")
    case (Inl e)
    then show ?thesis
      by (intro exI[of _ "[]"]) (simp add: extractFeatureDescription_compress_fails[OF True Inl])
  next
    case (Inr p)
    let ?req = "GenerateContent ''gemini-2.5-flash''
                  [InlineData (data p) (mimeType p), Text (promptText mode customPrompt)] None"
    let ?run = "retryOperation (call_content ai ?req) 3 2000 t"
    have s: "snd (extractFeatureDescription ai br apiKey img mode customPrompt t) = snd ?run"
      using True Inr
      by (simp add: extractFeatureDescription_def split: prod.splits sum.splits option.splits)
    from retryOperation_sent[of "call_content ai ?req" ?req 3 2000 t] call_content_sent
    obtain k where k: "sent (world (snd ?run)) = sent (world t) @ replicate k ?req" by blast
    have "\<exists>p' :: compressed. r = GenerateContent ''gemini-2.5-flash''
                   [InlineData (data p') (mimeType p'), Text (promptText mode customPrompt)] None"
      if "r \<in> set (replicate k ?req)" for r
    proof -
      from that have "r = ?req" by simp
      then show ?thesis by (rule exI[of _ p])
    qed
    with k show ?thesis unfolding s by (intro exI[of _ "replicate k ?req"] conjI ballI)
  qed
qed

lemma guidanceDescription_requests:
  "\<exists>new. sent (world (snd (guidanceDescription ai br apiKey referenceImage config t)))
            = sent (world t) @ new
         \<and> (\<forall>r \<in> set new. (\<exists>mode (p :: compressed). referenceMode config = Some mode
                     \<and> r = GenerateContent ''gemini-2.5-flash''
                           [InlineData (data p) (mimeType p),
                            Text (promptText mode (customReferencePrompt config))] None))"
proof (cases "\<exists>ref mode. referenceImage = Some ref \<and> referenceMode config = Some mode")
  case False
  then have "snd (guidanceDescription ai br apiKey referenceImage config t) = t"
    by (auto simp: guidanceDescription_def split: option.splits)
  then show ?thesis by (intro exI[of _ "[]"]) simp
next
  case True
  then obtain ref mode where r: "referenceImage = Some ref" "referenceMode config = Some mode"
    by blast
  have s: "snd (guidanceDescription ai br apiKey referenceImage config t)
          = snd (extractFeatureDescription ai br apiKey ref mode (customReferencePrompt config) t)"
    using r by (simp add: guidanceDescription_def split: prod.splits sum.splits)
  obtain new where new:
    "sent (world (snd (extractFeatureDescription ai br apiKey ref mode
                         (customReferencePrompt config) t)))
       = sent (world t) @ new"
    and an: "\<forall>r \<in> set new. \<exists>p :: compressed. r = GenerateContent ''gemini-2.5-flash''
                                      [InlineData (data p) (mimeType p),
                                       Text (promptText mode (customReferencePrompt config))] None"
    using extractFeatureDescription_requests[of ai br apiKey ref mode
        "customReferencePrompt config" t] by (elim exE conjE)
  from an r(2) have "\<forall>r \<in> set new. (\<exists>mode (p :: compressed). referenceMode config = Some mode
                     \<and> r = GenerateContent ''gemini-2.5-flash''
                           [InlineData (data p) (mimeType p),
                            Text (promptText mode (customReferencePrompt config))] None)"
    by blast
  with new show ?thesis unfolding s by (intro exI[of _ new] conjI)
qed

lemma imagenPath_sent:
  "\<exists>k. sent (world (snd (imagenPath ai config ratio t)))
          = sent (world t)
            @ replicate k (GenerateImages (model_value IMAGEN_4) (prompt config) 1
                             (imagenAspect ratio) ''image/jpeg'')"
proof -
  let ?req = "GenerateImages (model_value IMAGEN_4) (prompt config) 1 (imagenAspect ratio)
                ''image/jpeg''"
  let ?run = "retryOperation (call_images ai ?req) 3 2000 t"
  have s: "snd (imagenPath ai config ratio t) = snd ?run"
    by (simp add: imagenPath_def split: prod.splits sum.splits option.splits list.splits
          jsthrown.splits)
  from retryOperation_sent[of "call_images ai ?req" ?req 3 2000 t] call_images_sent
  show ?thesis unfolding s by blast
qed

lemma editPath_requests:
  "\<exists>new. sent (world (snd (editPath ai br apiKey sourceImage referenceImage config model ratio t)))
            = sent (world t) @ new
         \<and> (\<forall>r \<in> set new.
               (\<exists>mode (p :: compressed). referenceMode config = Some mode
                     \<and> r = GenerateContent ''gemini-2.5-flash''
                           [InlineData (data p) (mimeType p),
                            Text (promptText mode (customReferencePrompt config))] None)
               \<or> (\<exists>ps pr g. compressImage br (data sourceImage) (mimeType sourceImage) = Inr ps
                     \<and> compressRef br referenceImage = Inr pr
                     \<and> r = editRequest model ratio ps pr g config))"
proof -
  define A where "A = (\<lambda>r. (\<exists>mode (p :: compressed). referenceMode config = Some mode
                     \<and> r = GenerateContent ''gemini-2.5-flash''
                           [InlineData (data p) (mimeType p),
                            Text (promptText mode (customReferencePrompt config))] None))"
  define E where "E = (\<lambda>r. (\<exists>ps pr g. compressImage br (data sourceImage) (mimeType sourceImage) = Inr ps
                     \<and> compressRef br referenceImage = Inr pr
                     \<and> r = editRequest model ratio ps pr g config))"
  obtain g t1 where gd: "guidanceDescription ai br apiKey referenceImage config t = (g, t1)"
    by (cases "guidanceDescription ai br apiKey referenceImage config t")
  obtain new1 where n0: "sent (world (snd (guidanceDescription ai br apiKey referenceImage config t)))
            = sent (world t) @ new1"
    and a0: "\<forall>r \<in> set new1. (\<exists>mode (p :: compressed). referenceMode config = Some mode
                     \<and> r = GenerateContent ''gemini-2.5-flash''
                           [InlineData (data p) (mimeType p),
                            Text (promptText mode (customReferencePrompt config))] None)"
    using guidanceDescription_requests[of ai br apiKey referenceImage config t]
    by (elim exE conjE)
  from n0 have n1: "sent (world t1) = sent (world t) @ new1" unfolding gd by simp
  from a0 have a1: "\<forall>r \<in> set new1. A r" unfolding A_def .
  have stop: "\<exists>new. sent (world (snd (editPath ai br apiKey sourceImage referenceImage config
                                         model ratio t))) = sent (world t) @ new
                   \<and> (\<forall>r \<in> set new. A r \<or> E r)"
    if "snd (editPath ai br apiKey sourceImage referenceImage config model ratio t) = t1"
    unfolding that using n1 a1 by (intro exI[of _ new1] conjI ballI disjI1) simp_all
  have "\<exists>new. sent (world (snd (editPath ai br apiKey sourceImage referenceImage config
                                    model ratio t))) = sent (world t) @ new
              \<and> (\<forall>r \<in> set new. A r \<or> E r)"
  proof (cases "compressImage br (data sourceImage) (mimeType sourceImage)")
    case (Inl e)
    with gd show ?thesis by (intro stop) (simp add: editPath_def)
  next
    case ps: (Inr ps)
    show ?thesis
    proof (cases "compressRef br referenceImage")
      case (Inl e)
      with gd ps show ?thesis by (intro stop) (simp add: editPath_def)
    next
      case pr: (Inr pr)
      define req where "req = editRequest model ratio ps pr g config"
      have s: "snd (editPath ai br apiKey sourceImage referenceImage config model ratio t)
                 = snd (retryOperation (call_content ai req) 3 2000 t1)"
        unfolding editPath_outcome[OF gd ps pr] req_def by simp
      from retryOperation_sent[of "call_content ai req" req 3 2000 t1] call_content_sent
      obtain k where k: "sent (world (snd (retryOperation (call_content ai req) 3 2000 t1)))
                           = sent (world t1) @ replicate k req"
        by blast
      have "E req" unfolding E_def req_def using ps pr by (intro exI conjI) simp_all
      then have "\<forall>r \<in> set (new1 @ replicate k req). A r \<or> E r" using a1 by auto
      moreover have "sent (world (snd (retryOperation (call_content ai req) 3 2000 t1)))
                       = sent (world t) @ (new1 @ replicate k req)"
        using k n1 by simp
      ultimately show ?thesis unfolding s by (intro exI[of _ "new1 @ replicate k req"] conjI)
    qed
  qed
  then show ?thesis unfolding A_def E_def .
qed

text \<open>Every request \<open>generateFutureImage\<close> sends is an analysis request, the text-to-image
  request, or the edit request built from the compressed images.\<close>

lemma generateFutureImage_requests:
  "\<exists>new. sent (world (snd (generateFutureImage ai br apiKey sourceImage referenceImage config t)))
            = sent (world t) @ new
         \<and> (\<forall>r \<in> set new.
               (\<exists>mode (p :: compressed). referenceMode config = Some mode
                     \<and> r = GenerateContent ''gemini-2.5-flash''
                           [InlineData (data p) (mimeType p),
                            Text (promptText mode (customReferencePrompt config))] None)
               \<or> r = GenerateImages (model_value IMAGEN_4) (prompt config) 1
                        (imagenAspect (targetRatio sourceImage config)) ''image/jpeg''
               \<or> (\<exists>ps pr g. compressImage br (data sourceImage) (mimeType sourceImage) = Inr ps
                     \<and> compressRef br referenceImage = Inr pr
                     \<and> r = editRequest (case modelId config of Some m \<Rightarrow> m | None \<Rightarrow> GEMINI_2_5)
                           (targetRatio sourceImage config) ps pr g config))"
proof -
  define A where "A = (\<lambda>r. (\<exists>mode (p :: compressed). referenceMode config = Some mode
                     \<and> r = GenerateContent ''gemini-2.5-flash''
                           [InlineData (data p) (mimeType p),
                            Text (promptText mode (customReferencePrompt config))] None))"
  define I where "I = (\<lambda>r. r = GenerateImages (model_value IMAGEN_4) (prompt config) 1
                        (imagenAspect (targetRatio sourceImage config)) ''image/jpeg'')"
  define E where "E = (\<lambda>r. (\<exists>ps pr g. compressImage br (data sourceImage) (mimeType sourceImage) = Inr ps
                     \<and> compressRef br referenceImage = Inr pr
                     \<and> r = editRequest (case modelId config of Some m \<Rightarrow> m | None \<Rightarrow> GEMINI_2_5)
                           (targetRatio sourceImage config) ps pr g config))"
  have "\<exists>new. sent (world (snd (generateFutureImage ai br apiKey sourceImage referenceImage
                                    config t))) = sent (world t) @ new
              \<and> (\<forall>r \<in> set new. A r \<or> I r \<or> E r)"
  proof (cases "truthy_str apiKey")
    case False
    then have "snd (generateFutureImage ai br apiKey sourceImage referenceImage config t) = t"
      by (simp add: generateFutureImage_def)
    then show ?thesis by (intro exI[of _ "[]"]) simp
  next
    case True
    show ?thesis
    proof (cases "modelId config = Some IMAGEN_4")
      case im: True
      define req where "req = GenerateImages (model_value IMAGEN_4) (prompt config) 1
                        (imagenAspect (targetRatio sourceImage config)) ''image/jpeg''"
      from imagenPath_sent[of ai config "targetRatio sourceImage config" t]
      obtain k where k: "sent (world (snd (imagenPath ai config (targetRatio sourceImage config) t)))
            = sent (world t) @ replicate k req" unfolding req_def ..
      have "I req" by (simp add: I_def req_def)
      then have "\<forall>r \<in> set (replicate k req). A r \<or> I r \<or> E r" by simp
      with k show ?thesis
        unfolding generateFutureImage_imagen[OF True im]
        by (intro exI[of _ "replicate k req"] conjI)
    next
      case False
      obtain new where n: "sent (world (snd (editPath ai br apiKey sourceImage referenceImage config
          (case modelId config of Some m \<Rightarrow> m | None \<Rightarrow> GEMINI_2_5)
          (targetRatio sourceImage config) t))) = sent (world t) @ new"
        and ae: "\<forall>r \<in> set new. A r \<or> E r"
        using editPath_requests[of ai br apiKey sourceImage referenceImage config
          "case modelId config of Some m \<Rightarrow> m | None \<Rightarrow> GEMINI_2_5"
          "targetRatio sourceImage config" t]
        unfolding A_def E_def by (elim exE conjE)
      from ae have "\<forall>r \<in> set new. A r \<or> I r \<or> E r" by blast
      with n show ?thesis
        unfolding generateFutureImage_edit[OF True False] by (intro exI[of _ new] conjI)
    qed
  qed
  then show ?thesis unfolding A_def I_def E_def .
qed

lemma generateFutureImage_sent:
  "\<exists>new. sent (world (snd (generateFutureImage ai br apiKey sourceImage referenceImage config t)))
            = sent (world t) @ new
         \<and> (\<forall>r \<in> set new.
               (\<exists>m ps. r = GenerateContent m ps None)
               \<or> r = GenerateImages (model_value IMAGEN_4) (prompt config) 1
                        (imagenAspect (targetRatio sourceImage config)) ''image/jpeg''
               \<or> (\<exists>ps pr g. compressImage br (data sourceImage) (mimeType sourceImage) = Inr ps
                     \<and> compressRef br referenceImage = Inr pr
                     \<and> r = editRequest (case modelId config of Some m \<Rightarrow> m | None \<Rightarrow> GEMINI_2_5)
                           (targetRatio sourceImage config) ps pr g config))"
proof -
  define I where "I = (\<lambda>r. r = GenerateImages (model_value IMAGEN_4) (prompt config) 1
                        (imagenAspect (targetRatio sourceImage config)) ''image/jpeg'')"
  define E where "E = (\<lambda>r. (\<exists>ps pr g. compressImage br (data sourceImage) (mimeType sourceImage) = Inr ps
                     \<and> compressRef br referenceImage = Inr pr
                     \<and> r = editRequest (case modelId config of Some m \<Rightarrow> m | None \<Rightarrow> GEMINI_2_5)
                           (targetRatio sourceImage config) ps pr g config))"
  obtain new where s:
    "sent (world (snd (generateFutureImage ai br apiKey sourceImage referenceImage config t)))
       = sent (world t) @ new"
    and kinds: "\<forall>r \<in> set new.
               (\<exists>mode (p :: compressed). referenceMode config = Some mode
                     \<and> r = GenerateContent ''gemini-2.5-flash''
                           [InlineData (data p) (mimeType p),
                            Text (promptText mode (customReferencePrompt config))] None)
               \<or> I r \<or> E r"
    using generateFutureImage_requests[of ai br apiKey sourceImage referenceImage config t]
    unfolding I_def E_def by (elim exE conjE)
  have "(\<exists>m ps. r = GenerateContent m ps None) \<or> I r \<or> E r" if "r \<in> set new" for r
    using kinds[THEN bspec, OF that] by blast
  with s have "\<exists>new. sent (world (snd (generateFutureImage ai br apiKey sourceImage referenceImage
                                    config t))) = sent (world t) @ new
          \<and> (\<forall>r \<in> set new. (\<exists>m ps. r = GenerateContent m ps None) \<or> I r \<or> E r)"
    by (intro exI[of _ new] conjI ballI)
  then show ?thesis unfolding I_def E_def .
qed

subsection \<open>The aspect ratio sent\<close>






lemma retryOperation_first_success:
  assumes "operation (world t) = (Inr v, s')"
  shows "retryOperation operation 3 2000 t = (Inr v, t\<lparr>world := s', calls := calls t + 1\<rparr>)"
  unfolding retryOperation_def using assms by (intro retry_loop_success) simp_all



subsection \<open>The order of the parts\<close>

text \<open>
  Claim C7. Every edit request sent by \<open>generateFutureImage\<close> (a \<^verbatim>\<open>generateContent\<close> call
  with a config) has these parts, in this order: the compressed source image, then the
  compressed reference image when there is a reference image, then one text part.
\<close>

theorem edit_parts_in_fixed_order:
  "\<exists>new. sent (world (snd (generateFutureImage ai br apiKey sourceImage referenceImage config t)))
            = sent (world t) @ new
         \<and> (\<forall>req \<in> set new. \<forall>m parts c.
               req = GenerateContent m parts (Some c) \<longrightarrow>
               (\<exists>ps instr.
                  compressImage br (data sourceImage) (mimeType sourceImage) = Inr ps
                  \<and> (case referenceImage of
                       None \<Rightarrow> parts = [InlineData (data ps) (mimeType ps), Text instr]
                     | Some ref \<Rightarrow>
                         (\<exists>pr. compressImage br (data ref) (mimeType ref) = Inr pr
                            \<and> parts = [InlineData (data ps) (mimeType ps),
                                       InlineData (data pr) (mimeType pr), Text instr]))))"
proof -
  obtain new where both:
    "sent (world (snd (generateFutureImage ai br apiKey sourceImage referenceImage config t)))
          = sent (world t) @ new
     \<and> (\<forall>r \<in> set new.
               (\<exists>m ps. r = GenerateContent m ps None)
               \<or> r = GenerateImages (model_value IMAGEN_4) (prompt config) 1
                        (imagenAspect (targetRatio sourceImage config)) ''image/jpeg''
               \<or> (\<exists>ps pr g. compressImage br (data sourceImage) (mimeType sourceImage) = Inr ps
                     \<and> compressRef br referenceImage = Inr pr
                     \<and> r = editRequest (case modelId config of Some m \<Rightarrow> m | None \<Rightarrow> GEMINI_2_5)
                           (targetRatio sourceImage config) ps pr g config))"
    using generateFutureImage_sent[of ai br apiKey sourceImage referenceImage config t] ..
  note s = both[THEN conjunct1] and kinds = both[THEN conjunct2]
  have order: "\<exists>ps instr.
                  compressImage br (data sourceImage) (mimeType sourceImage) = Inr ps
                  \<and> (case referenceImage of
                       None \<Rightarrow> parts = [InlineData (data ps) (mimeType ps), Text instr]
                     | Some ref \<Rightarrow>
                         (\<exists>pr. compressImage br (data ref) (mimeType ref) = Inr pr
                            \<and> parts = [InlineData (data ps) (mimeType ps),
                                       InlineData (data pr) (mimeType pr), Text instr]))"
    if r: "req \<in> set new" and e: "req = GenerateContent m parts (Some c)" for req m parts c
  proof -
    from kinds[THEN bspec, OF r]
    have "\<exists>ps pr g. compressImage br (data sourceImage) (mimeType sourceImage) = Inr ps
                     \<and> compressRef br referenceImage = Inr pr
                     \<and> req = editRequest (case modelId config of Some m \<Rightarrow> m | None \<Rightarrow> GEMINI_2_5)
                           (targetRatio sourceImage config) ps pr g config"
    proof (elim disjE)
      assume "\<exists>m ps. req = GenerateContent m ps None"
      with e show ?thesis by auto
    next
      assume "req = GenerateImages (model_value IMAGEN_4) (prompt config) 1
                        (imagenAspect (targetRatio sourceImage config)) ''image/jpeg''"
      with e show ?thesis by simp
    next
      assume "\<exists>ps pr g. compressImage br (data sourceImage) (mimeType sourceImage) = Inr ps
                     \<and> compressRef br referenceImage = Inr pr
                     \<and> req = editRequest (case modelId config of Some m \<Rightarrow> m | None \<Rightarrow> GEMINI_2_5)
                           (targetRatio sourceImage config) ps pr g config"
      then show ?thesis .
    qed
    then obtain ps pr g where
      ps: "compressImage br (data sourceImage) (mimeType sourceImage) = Inr ps"
      and pr: "compressRef br referenceImage = Inr pr"
      and req: "req = editRequest (case modelId config of Some m \<Rightarrow> m | None \<Rightarrow> GEMINI_2_5)
                           (targetRatio sourceImage config) ps pr g config"
      by (elim exE conjE)
    define instr where "instr = instruction (pr \<noteq> None) g config"
    from req e have parts: "parts = edit_parts ps pr instr"
      by (simp add: editRequest_def instr_def)
    show ?thesis
    proof (cases referenceImage)
      case None
      with pr have "pr = None" by (simp add: compressRef_def)
      with parts None ps show ?thesis by (simp add: edit_parts_def)
    next
      case (Some ref)
      with pr obtain p where p: "compressImage br (data ref) (mimeType ref) = Inr p"
        and "pr = Some p"
        by (auto simp: compressRef_def split: sum.splits)
      with parts Some ps show ?thesis by (simp add: edit_parts_def)
    qed
  qed
  show ?thesis
  proof (intro exI[of _ new] conjI ballI allI impI)
    show "sent (world (snd (generateFutureImage ai br apiKey sourceImage referenceImage config t)))
            = sent (world t) @ new" by (rule s)
  next
    fix req m parts c
    assume "req \<in> set new" and "req = GenerateContent m parts (Some c)"
    then show "\<exists>ps instr.
                  compressImage br (data sourceImage) (mimeType sourceImage) = Inr ps
                  \<and> (case referenceImage of
                       None \<Rightarrow> parts = [InlineData (data ps) (mimeType ps), Text instr]
                     | Some ref \<Rightarrow>
                         (\<exists>pr. compressImage br (data ref) (mimeType ref) = Inr pr
                            \<and> parts = [InlineData (data ps) (mimeType ps),
                                       InlineData (data pr) (mimeType pr), Text instr]))"
      by (rule order)
  qed
qed

theorem edit_parts_in_fixed_order_witness:
  "\<exists>first instr c.
     sent (world (snd (generateFutureImage example_sdk example_browser (Some ''key'')
                         source_800_600 (Some reference_unsized)
                         \<lparr>prompt = [], aspectRatio = SAME_AS_SOURCE, referenceMode = Some DRESS,
                          customReferencePrompt = None, modelId = None\<rparr> start)))
       = [first,
          GenerateContent ''gemini-2.5-flash-image''
            [InlineData ''jpeg-of-src'' ''image/jpeg'', InlineData ''jpeg-of-ref'' ''image/jpeg'',
             Text instr]
            (Some c)]"
proof -
  let ?cfg = "\<lparr>prompt = [], aspectRatio = SAME_AS_SOURCE, referenceMode = Some DRESS,
                customReferencePrompt = None, modelId = None\<rparr>"
  let ?ps = "\<lparr>data = ''jpeg-of-src'', mimeType = ''image/jpeg'',
               canvas_width = 800, canvas_height = 600\<rparr>"
  let ?pr = "\<lparr>data = ''jpeg-of-ref'', mimeType = ''image/jpeg'',
               canvas_width = 800, canvas_height = 600\<rparr>"
  let ?run = "generateFutureImage example_sdk example_browser (Some ''key'')
                source_800_600 (Some reference_unsized) ?cfg start"
  define areq where "areq = GenerateContent ''gemini-2.5-flash''
      [InlineData (data ?pr) (mimeType ?pr), Text (promptText DRESS None)] None"
  define t1 :: "nat net timeline" where
    "t1 = \<lparr>world = \<lparr>remote = 1, sent = [areq]\<rparr>, calls = 1, slept = []\<rparr>"
  define g where
    \<open>g = ''\<newline>VISUAL DESCRIPTION OF REFERENCE (for guidance): "'' @ ''a red coat'' @ ''"\<newline>''\<close>
  define parts where "parts = edit_parts ?ps (Some ?pr) (instruction True g ?cfg)"
  define c where "c = editConfig GEMINI_2_5 (targetRatio source_800_600 ?cfg)"
  define ereq where "ereq = GenerateContent ''gemini-2.5-flash-image'' parts (Some c)"
  have k: "truthy_str (Some ''key'')" by simp
  have m: "modelId ?cfg \<noteq> Some IMAGEN_4" by simp
  have "call_content example_sdk areq (world start)
          = (Inr \<lparr>candidates = None, response_text = Some ''a red coat''\<rparr>,
             \<lparr>remote = 1, sent = [areq]\<rparr>)"
    by (simp add: call_content_def example_sdk_def start_def areq_def)
  from retryOperation_first_success[where operation = "call_content example_sdk areq"
      and t = start, OF this]
  have arun: "retryOperation (call_content example_sdk areq) 3 2000 start
                = (Inr \<lparr>candidates = None, response_text = Some ''a red coat''\<rparr>, t1)"
    by (simp add: start_def t1_def)
  have ex: "extractFeatureDescription example_sdk example_browser (Some ''key'')
              reference_unsized DRESS None start = (Inr ''a red coat'', t1)"
    unfolding extractFeatureDescription_def example_compress_ref
    using arun by (simp add: areq_def)
  have gd: "guidanceDescription example_sdk example_browser (Some ''key'')
              (Some reference_unsized) ?cfg start = (g, t1)"
    unfolding guidanceDescription_def using ex by (simp add: g_def)
  have cr: "compressRef example_browser (Some reference_unsized) = Inr (Some ?pr)"
    by (simp add: compressRef_def example_compress_ref)
  have er: "editRequest (case modelId ?cfg of Some m \<Rightarrow> m | None \<Rightarrow> GEMINI_2_5)
              (targetRatio source_800_600 ?cfg) ?ps (Some ?pr) g ?cfg = ereq"
    by (simp add: editRequest_def ereq_def parts_def c_def)
  have "\<exists>resp. call_content example_sdk ereq (world t1)
          = (Inr resp, \<lparr>remote = 2, sent = [areq, ereq]\<rparr>)"
    by (simp add: call_content_def example_sdk_def t1_def ereq_def)
  then obtain resp where "call_content example_sdk ereq (world t1)
          = (Inr resp, \<lparr>remote = 2, sent = [areq, ereq]\<rparr>)" ..
  from retryOperation_first_success[where operation = "call_content example_sdk ereq"
      and t = t1, OF this]
  have erun: "sent (world (snd (retryOperation (call_content example_sdk ereq) 3 2000 t1)))
                = [areq, ereq]"
    by simp
  have log: "sent (world (snd ?run)) = [areq, ereq]"
    unfolding generateFutureImage_edit[OF k m]
      editPath_outcome[OF gd example_compress_source cr] er snd_conv
    by (rule erun)
  obtain new where inst:
    "sent (world (snd ?run)) = sent (world start) @ new
     \<and> (\<forall>req \<in> set new. \<forall>m parts c.
               req = GenerateContent m parts (Some c) \<longrightarrow>
               (\<exists>ps instr.
                  compressImage example_browser (data source_800_600) (mimeType source_800_600)
                    = Inr ps
                  \<and> (case Some reference_unsized of
                       None \<Rightarrow> parts = [InlineData (data ps) (mimeType ps), Text instr]
                     | Some ref \<Rightarrow>
                         (\<exists>pr. compressImage example_browser (data ref) (mimeType ref) = Inr pr
                            \<and> parts = [InlineData (data ps) (mimeType ps),
                                       InlineData (data pr) (mimeType pr), Text instr]))))"
    using edit_parts_in_fixed_order[of example_sdk example_browser "Some ''key''"
        source_800_600 "Some reference_unsized" ?cfg start] ..
  from inst[THEN conjunct1] log have new: "new = [areq, ereq]" by (simp add: start_def)
  have mem: "ereq \<in> set new" unfolding new by simp
  from inst[THEN conjunct2, THEN bspec, OF mem, THEN spec, THEN spec, THEN spec, THEN mp,
      OF ereq_def]
  obtain instr where "parts = [InlineData ''jpeg-of-src'' ''image/jpeg'',
                               InlineData ''jpeg-of-ref'' ''image/jpeg'', Text instr]"
    using example_compress_source example_compress_ref by auto
  with log show ?thesis unfolding ereq_def by blast
qed
subsection \<open>The feature named in Custom mode\<close>

lemma promptText_custom_feature:
  \<open>promptText CUSTOM (customReferencePrompt config) =
     (if truthy_str (customReferencePrompt config)
      then ''Analyze the image and provide a detailed description of the following feature: "''
           @ feature config
           @ ''". Describe it specifically so it can be visually replicated.''
      else ''Describe the key distinctive visual attributes of this image.'')\<close>
proof (cases "customReferencePrompt config")
  case None
  then show ?thesis by simp
next
  case (Some c)
  then show ?thesis by (simp add: feature_def)
qed

lemma compressRef_present:
  "compressRef br referenceImage = Inr pr \<Longrightarrow> (pr \<noteq> None) = (referenceImage \<noteq> None)"
  by (auto simp: compressRef_def split: option.splits sum.splits)

lemma edit_parts_last: "\<exists>images. edit_parts ps pr instr = images @ [Text instr]"
proof -
  have "edit_parts ps pr instr
          = ([InlineData (data ps) (mimeType ps)]
             @ (case pr of Some r \<Rightarrow> [InlineData (data r) (mimeType r)] | None \<Rightarrow> []))
            @ [Text instr]"
    by (simp add: edit_parts_def)
  then show ?thesis ..
qed

text \<open>
  Claim C9. Let the reference mode of \<open>config\<close> be Custom, and let \<open>feature config\<close> be the
  feature of line 295. It is never the empty string: it is the custom prompt when that is
  given and not empty, and the fallback \<open>feature\<close> otherwise. Every request
  \<open>generateFutureImage\<close> sends is then composed with it: an analysis request (a
  \<^verbatim>\<open>generateContent\<close> call without a config) carries one image and the question that names
  the given feature, or the generic description request when none is given; an edit
  request (a \<^verbatim>\<open>generateContent\<close> call with a config) ends with the instruction text, and
  with a reference image that instruction contains the transfer directive naming
  \<open>feature config\<close>. The requests \<open>extractFeatureDescription\<close> sends when it is called in
  Custom mode with the custom prompt of \<open>config\<close> carry the same question.
\<close>

theorem custom_feature_never_empty:
  assumes \<open>referenceMode config = Some CUSTOM\<close>
  shows \<open>feature config \<noteq> []
    \<and> (if truthy_str (customReferencePrompt config)
       then customReferencePrompt config = Some (feature config)
       else feature config = ''feature'')
    \<and> (\<exists>new. sent (world (snd (generateFutureImage ai br apiKey sourceImage referenceImage
                                   config t)))
               = sent (world t) @ new
            \<and> (\<forall>req \<in> set new. \<forall>m parts c.
                  req = GenerateContent m parts c \<longrightarrow>
                  (case c of
                     None \<Rightarrow>
                       \<exists>img. parts =
                         [img,
                          Text (if truthy_str (customReferencePrompt config)
                                then ''Analyze the image and provide a detailed description of the following feature: "''
                                     @ feature config
                                     @ ''". Describe it specifically so it can be visually replicated.''
                                else ''Describe the key distinctive visual attributes of this image.'')]
                   | Some cfg \<Rightarrow>
                       \<exists>images g.
                         parts = images @ [Text (instruction (referenceImage \<noteq> None) g config)]
                         \<and> (referenceImage \<noteq> None \<longrightarrow>
                              str_includes (instruction True g config)
                                (''\<newline>MODE: CUSTOM TRANSFER ('' @ feature config @ '')\<newline>''
                                 @ ''1. Transfer the '' @ feature config @ '' from the Reference Image to the Source Character.\<newline>''
                                 @ ''2. Blend the '' @ feature config @ '' naturally with the Source Character while preserving their identity.\<newline>'')))))
    \<and> (\<exists>new. sent (world (snd (extractFeatureDescription ai br apiKey ref CUSTOM
                                   (customReferencePrompt config) t)))
               = sent (world t) @ new
            \<and> (\<forall>req \<in> set new.
                  \<exists>img. req = GenerateContent ''gemini-2.5-flash''
                         [img,
                          Text (if truthy_str (customReferencePrompt config)
                                then ''Analyze the image and provide a detailed description of the following feature: "''
                                     @ feature config
                                     @ ''". Describe it specifically so it can be visually replicated.''
                                else ''Describe the key distinctive visual attributes of this image.'')]
                         None))\<close>
proof (intro conjI)
  let ?q = \<open>if truthy_str (customReferencePrompt config)
            then ''Analyze the image and provide a detailed description of the following feature: "''
                 @ feature config
                 @ ''". Describe it specifically so it can be visually replicated.''
            else ''Describe the key distinctive visual attributes of this image.''\<close>
  let ?d = \<open>''\<newline>MODE: CUSTOM TRANSFER ('' @ feature config @ '')\<newline>''
            @ ''1. Transfer the '' @ feature config @ '' from the Reference Image to the Source Character.\<newline>''
            @ ''2. Blend the '' @ feature config @ '' naturally with the Source Character while preserving their identity.\<newline>''\<close>
  show "feature config \<noteq> []" by (rule feature_nonempty)
  show "if truthy_str (customReferencePrompt config)
        then customReferencePrompt config = Some (feature config)
        else feature config = ''feature''"
    using feature_given[of config] feature_fallback[of config]
    by (cases "truthy_str (customReferencePrompt config)") simp_all
  have d: "modeDirective (referenceMode config) config = ?d"
    unfolding assms by (simp only: modeDirective.simps)
  obtain new where s:
    "sent (world (snd (generateFutureImage ai br apiKey sourceImage referenceImage config t)))
       = sent (world t) @ new"
    and kinds: "\<forall>r \<in> set new.
               (\<exists>mode (p :: compressed). referenceMode config = Some mode
                     \<and> r = GenerateContent ''gemini-2.5-flash''
                           [InlineData (data p) (mimeType p),
                            Text (promptText mode (customReferencePrompt config))] None)
               \<or> r = GenerateImages (model_value IMAGEN_4) (prompt config) 1
                        (imagenAspect (targetRatio sourceImage config)) ''image/jpeg''
               \<or> (\<exists>ps pr g. compressImage br (data sourceImage) (mimeType sourceImage) = Inr ps
                     \<and> compressRef br referenceImage = Inr pr
                     \<and> r = editRequest (case modelId config of Some m \<Rightarrow> m | None \<Rightarrow> GEMINI_2_5)
                           (targetRatio sourceImage config) ps pr g config)"
    using generateFutureImage_requests[of ai br apiKey sourceImage referenceImage config t]
    by (elim exE conjE)
  have composed:
    "case c of
       None \<Rightarrow> \<exists>img. parts = [img, Text ?q]
     | Some cfg \<Rightarrow>
         \<exists>images g.
           parts = images @ [Text (instruction (referenceImage \<noteq> None) g config)]
           \<and> (referenceImage \<noteq> None \<longrightarrow> str_includes (instruction True g config) ?d)"
    if r: "req \<in> set new" and e: "req = GenerateContent m parts c" for req m parts c
    using kinds[THEN bspec, OF r]
  proof (elim disjE exE conjE)
    fix mode and p :: compressed
    assume "referenceMode config = Some mode"
      and "req = GenerateContent ''gemini-2.5-flash''
                   [InlineData (data p) (mimeType p),
                    Text (promptText mode (customReferencePrompt config))] None"
    with assms e have c: "c = None"
      and parts: "parts = [InlineData (data p) (mimeType p),
                           Text (promptText CUSTOM (customReferencePrompt config))]"
      by simp_all
    have "\<exists>img. parts = [img, Text ?q]"
      unfolding parts promptText_custom_feature by (rule exI[of _ "InlineData (data p) (mimeType p)"]) (rule refl)
    then show ?thesis unfolding c by (simp only: option.case)
  next
    assume "req = GenerateImages (model_value IMAGEN_4) (prompt config) 1
                    (imagenAspect (targetRatio sourceImage config)) ''image/jpeg''"
    with e show ?thesis by simp
  next
    fix ps pr g
    assume pr: "compressRef br referenceImage = Inr pr"
      and "req = editRequest (case modelId config of Some m \<Rightarrow> m | None \<Rightarrow> GEMINI_2_5)
                   (targetRatio sourceImage config) ps pr g config"
    with e have c: "c = Some (editConfig (case modelId config of Some m \<Rightarrow> m | None \<Rightarrow> GEMINI_2_5)
                                (targetRatio sourceImage config))"
      and parts: "parts = edit_parts ps pr (instruction (pr \<noteq> None) g config)"
      by (simp_all add: editRequest_def)
    obtain images where
      "edit_parts ps pr (instruction (pr \<noteq> None) g config)
         = images @ [Text (instruction (pr \<noteq> None) g config)]"
      using edit_parts_last ..
    then have p: "parts = images @ [Text (instruction (referenceImage \<noteq> None) g config)]"
      unfolding parts compressRef_present[OF pr] .
    have i: "str_includes (instruction True g config) ?d"
      using instruction_includes_directive[of g config] unfolding d .
    have "\<exists>images g.
           parts = images @ [Text (instruction (referenceImage \<noteq> None) g config)]
           \<and> (referenceImage \<noteq> None \<longrightarrow> str_includes (instruction True g config) ?d)"
      using p i by (intro exI[of _ images] exI[of _ g] conjI impI)
    then show ?thesis unfolding c by (simp only: option.case)
  qed
  show "\<exists>new. sent (world (snd (generateFutureImage ai br apiKey sourceImage referenceImage
                                   config t)))
               = sent (world t) @ new
            \<and> (\<forall>req \<in> set new. \<forall>m parts c.
                  req = GenerateContent m parts c \<longrightarrow>
                  (case c of
                     None \<Rightarrow> \<exists>img. parts = [img, Text ?q]
                   | Some cfg \<Rightarrow>
                       \<exists>images g.
                         parts = images @ [Text (instruction (referenceImage \<noteq> None) g config)]
                         \<and> (referenceImage \<noteq> None \<longrightarrow>
                              str_includes (instruction True g config) ?d)))"
  proof (intro exI[of _ new] conjI ballI allI impI)
    show "sent (world (snd (generateFutureImage ai br apiKey sourceImage referenceImage config t)))
            = sent (world t) @ new" by (rule s)
  next
    fix req m parts c
    assume "req \<in> set new" and "req = GenerateContent m parts c"
    then show "case c of
       None \<Rightarrow> \<exists>img. parts = [img, Text ?q]
     | Some cfg \<Rightarrow>
         \<exists>images g.
           parts = images @ [Text (instruction (referenceImage \<noteq> None) g config)]
           \<and> (referenceImage \<noteq> None \<longrightarrow> str_includes (instruction True g config) ?d)"
      by (rule composed)
  qed
  obtain sent_by_extract where x:
    "sent (world (snd (extractFeatureDescription ai br apiKey ref CUSTOM
                         (customReferencePrompt config) t)))
       = sent (world t) @ sent_by_extract"
    and q: "\<forall>r \<in> set sent_by_extract. \<exists>p :: compressed. r = GenerateContent ''gemini-2.5-flash''
                                      [InlineData (data p) (mimeType p),
                                       Text (promptText CUSTOM (customReferencePrompt config))] None"
    using extractFeatureDescription_requests[of ai br apiKey ref CUSTOM
        "customReferencePrompt config" t]
    by (elim exE conjE)
  have asked: "\<exists>img. req = GenerateContent ''gemini-2.5-flash'' [img, Text ?q] None"
    if "req \<in> set sent_by_extract" for req
  proof -
    from q[THEN bspec, OF that] obtain p :: compressed where
      "req = GenerateContent ''gemini-2.5-flash''
               [InlineData (data p) (mimeType p),
                Text (promptText CUSTOM (customReferencePrompt config))] None" ..
    then show ?thesis
      unfolding promptText_custom_feature by (rule exI[of _ "InlineData (data p) (mimeType p)"])
  qed
  show "\<exists>new. sent (world (snd (extractFeatureDescription ai br apiKey ref CUSTOM
                                   (customReferencePrompt config) t)))
               = sent (world t) @ new
            \<and> (\<forall>req \<in> set new.
                  \<exists>img. req = GenerateContent ''gemini-2.5-flash'' [img, Text ?q] None)"
    using x asked by (intro exI[of _ sent_by_extract] conjI ballI)
qed

theorem custom_feature_never_empty_witness:
  \<open>\<exists>img images g c.
     sent (world (snd (generateFutureImage example_sdk example_browser (Some ''key'')
                         source_800_600 (Some reference_unsized)
                         \<lparr>prompt = [], aspectRatio = SAME_AS_SOURCE, referenceMode = Some CUSTOM,
                          customReferencePrompt = Some [], modelId = None\<rparr> start)))
       = [GenerateContent ''gemini-2.5-flash''
            [img, Text ''Describe the key distinctive visual attributes of this image.''] None,
          GenerateContent ''gemini-2.5-flash-image''
            (images @ [Text (instruction True g
                \<lparr>prompt = [], aspectRatio = SAME_AS_SOURCE, referenceMode = Some CUSTOM,
                 customReferencePrompt = Some [], modelId = None\<rparr>)])
            (Some c)]
     \<and> str_includes
         (instruction True g
            \<lparr>prompt = [], aspectRatio = SAME_AS_SOURCE, referenceMode = Some CUSTOM,
             customReferencePrompt = Some [], modelId = None\<rparr>)
         (''\<newline>MODE: CUSTOM TRANSFER (feature)\<newline>''
          @ ''1. Transfer the feature from the Reference Image to the Source Character.\<newline>''
          @ ''2. Blend the feature naturally with the Source Character while preserving their identity.\<newline>'')
     \<and> sent (world (snd (extractFeatureDescription example_sdk example_browser (Some ''key'')
                           reference_unsized CUSTOM (Some []) start)))
         = [GenerateContent ''gemini-2.5-flash''
              [img, Text ''Describe the key distinctive visual attributes of this image.''] None]\<close>
proof -
  let ?cfg = "\<lparr>prompt = [], aspectRatio = SAME_AS_SOURCE, referenceMode = Some CUSTOM,
                customReferencePrompt = Some [], modelId = None\<rparr>"
  let ?ps = "\<lparr>data = ''jpeg-of-src'', mimeType = ''image/jpeg'',
               canvas_width = 800, canvas_height = 600\<rparr>"
  let ?pr = "\<lparr>data = ''jpeg-of-ref'', mimeType = ''image/jpeg'',
               canvas_width = 800, canvas_height = 600\<rparr>"
  let ?run = "generateFutureImage example_sdk example_browser (Some ''key'')
                source_800_600 (Some reference_unsized) ?cfg start"
  let ?ext = "extractFeatureDescription example_sdk example_browser (Some ''key'')
                reference_unsized CUSTOM (customReferencePrompt ?cfg) start"
  let ?q = \<open>if truthy_str (customReferencePrompt ?cfg)
            then ''Analyze the image and provide a detailed description of the following feature: "''
                 @ feature ?cfg
                 @ ''". Describe it specifically so it can be visually replicated.''
            else ''Describe the key distinctive visual attributes of this image.''\<close>
  let ?d = \<open>''\<newline>MODE: CUSTOM TRANSFER ('' @ feature ?cfg @ '')\<newline>''
            @ ''1. Transfer the '' @ feature ?cfg @ '' from the Reference Image to the Source Character.\<newline>''
            @ ''2. Blend the '' @ feature ?cfg @ '' naturally with the Source Character while preserving their identity.\<newline>''\<close>
  define pa where "pa = [InlineData (data ?pr) (mimeType ?pr), Text (promptText CUSTOM (Some []))]"
  define areq where "areq = GenerateContent ''gemini-2.5-flash'' pa None"
  define t1 :: "nat net timeline" where
    "t1 = \<lparr>world = \<lparr>remote = 1, sent = [areq]\<rparr>, calls = 1, slept = []\<rparr>"
  define gd where
    \<open>gd = ''\<newline>VISUAL DESCRIPTION OF REFERENCE (for guidance): "'' @ ''a red coat'' @ ''"\<newline>''\<close>
  define parts where "parts = edit_parts ?ps (Some ?pr) (instruction True gd ?cfg)"
  define c where "c = editConfig GEMINI_2_5 (targetRatio source_800_600 ?cfg)"
  define ereq where "ereq = GenerateContent ''gemini-2.5-flash-image'' parts (Some c)"
  have k: "truthy_str (Some ''key'')" by simp
  have m: "modelId ?cfg \<noteq> Some IMAGEN_4" by simp
  have rm: "referenceMode ?cfg = Some CUSTOM" by simp
  have "call_content example_sdk areq (world start)
          = (Inr \<lparr>candidates = None, response_text = Some ''a red coat''\<rparr>,
             \<lparr>remote = 1, sent = [areq]\<rparr>)"
    by (simp add: call_content_def example_sdk_def start_def areq_def)
  from retryOperation_first_success[where operation = "call_content example_sdk areq"
      and t = start, OF this]
  have arun: "retryOperation (call_content example_sdk areq) 3 2000 start
                = (Inr \<lparr>candidates = None, response_text = Some ''a red coat''\<rparr>, t1)"
    by (simp add: start_def t1_def)
  have ex: "extractFeatureDescription example_sdk example_browser (Some ''key'')
              reference_unsized CUSTOM (Some []) start = (Inr ''a red coat'', t1)"
    unfolding extractFeatureDescription_def example_compress_ref
    using arun by (simp add: areq_def pa_def)
  have g: "guidanceDescription example_sdk example_browser (Some ''key'')
              (Some reference_unsized) ?cfg start = (gd, t1)"
    unfolding guidanceDescription_def using ex by (simp add: gd_def)
  have cr: "compressRef example_browser (Some reference_unsized) = Inr (Some ?pr)"
    by (simp add: compressRef_def example_compress_ref)
  have er: "editRequest (case modelId ?cfg of Some m \<Rightarrow> m | None \<Rightarrow> GEMINI_2_5)
              (targetRatio source_800_600 ?cfg) ?ps (Some ?pr) gd ?cfg = ereq"
    by (simp add: editRequest_def ereq_def parts_def c_def)
  have "\<exists>resp. call_content example_sdk ereq (world t1)
          = (Inr resp, \<lparr>remote = 2, sent = [areq, ereq]\<rparr>)"
    by (simp add: call_content_def example_sdk_def t1_def ereq_def)
  then obtain resp where "call_content example_sdk ereq (world t1)
          = (Inr resp, \<lparr>remote = 2, sent = [areq, ereq]\<rparr>)" ..
  from retryOperation_first_success[where operation = "call_content example_sdk ereq"
      and t = t1, OF this]
  have erun: "sent (world (snd (retryOperation (call_content example_sdk ereq) 3 2000 t1)))
                = [areq, ereq]"
    by simp
  have log: "sent (world (snd ?run)) = [areq, ereq]"
    unfolding generateFutureImage_edit[OF k m]
      editPath_outcome[OF g example_compress_source cr] er snd_conv
    by (rule erun)
  have xlog: "sent (world (snd ?ext)) = [areq]"
    using ex by (simp add: t1_def)
  note thm_at = custom_feature_never_empty[where config = ?cfg and ai = example_sdk
      and br = example_browser and apiKey = "Some ''key''" and sourceImage = source_800_600
      and referenceImage = "Some reference_unsized" and t = start and ref = reference_unsized,
      OF rm]
  from thm_at[THEN conjunct2, THEN conjunct1] have f: "feature ?cfg = ''feature''" by simp
  obtain new where inst:
    "sent (world (snd ?run)) = sent (world start) @ new
     \<and> (\<forall>req \<in> set new. \<forall>m parts c.
           req = GenerateContent m parts c \<longrightarrow>
           (case c of
              None \<Rightarrow> \<exists>img. parts = [img, Text ?q]
            | Some cfg \<Rightarrow>
                \<exists>images g.
                  parts = images @ [Text (instruction (Some reference_unsized \<noteq> None) g ?cfg)]
                  \<and> (Some reference_unsized \<noteq> None \<longrightarrow>
                       str_includes (instruction True g ?cfg) ?d)))"
    using thm_at[THEN conjunct2, THEN conjunct2, THEN conjunct1] ..
  obtain asked where xinst:
    "sent (world (snd ?ext)) = sent (world start) @ asked
     \<and> (\<forall>req \<in> set asked.
           \<exists>img. req = GenerateContent ''gemini-2.5-flash'' [img, Text ?q] None)"
    using thm_at[THEN conjunct2, THEN conjunct2, THEN conjunct2] ..
  from inst[THEN conjunct1] log have new: "new = [areq, ereq]" by (simp add: start_def)
  from xinst[THEN conjunct1] xlog have asked: "asked = [areq]" by (simp add: start_def)
  have mem_a: "areq \<in> set new" and mem_e: "ereq \<in> set new" unfolding new by simp_all
  have mem_x: "areq \<in> set asked" unfolding asked by simp
  from xinst[THEN conjunct2, THEN bspec, OF mem_x]
  obtain img where
    areq: "areq = GenerateContent ''gemini-2.5-flash''
             [img, Text ''Describe the key distinctive visual attributes of this image.''] None"
    by auto
  from inst[THEN conjunct2, THEN bspec, OF mem_e, THEN spec, THEN spec, THEN spec, THEN mp,
      OF ereq_def]
  obtain images g' where p: "parts = images @ [Text (instruction True g' ?cfg)]"
    and i: "str_includes (instruction True g' ?cfg) ?d"
    by auto
  from i have i': "str_includes (instruction True g' ?cfg)
         (''\<newline>MODE: CUSTOM TRANSFER (feature)\<newline>''
          @ ''1. Transfer the feature from the Reference Image to the Source Character.\<newline>''
          @ ''2. Blend the feature naturally with the Source Character while preserving their identity.\<newline>'')"
    by (simp add: f)
  have l1: "sent (world (snd ?run))
       = [GenerateContent ''gemini-2.5-flash''
            [img, Text ''Describe the key distinctive visual attributes of this image.''] None,
          GenerateContent ''gemini-2.5-flash-image''
            (images @ [Text (instruction True g' ?cfg)]) (Some c)]"
    unfolding log ereq_def p using areq by simp
  have l2: "sent (world (snd (extractFeatureDescription example_sdk example_browser (Some ''key'')
                           reference_unsized CUSTOM (Some []) start)))
         = [GenerateContent ''gemini-2.5-flash''
              [img, Text ''Describe the key distinctive visual attributes of this image.''] None]"
    using xlog areq by simp
  show ?thesis
    by (rule exI[of _ img], rule exI[of _ images], rule exI[of _ g'], rule exI[of _ c],
        intro conjI, rule l1, rule i', rule l2)
qed

end
